theory Spec2Isabelle
  imports Complex_Main "HOL-Library.AList"
begin

section \<open>The fastai tabular model wrapper (tabular\_nn\_fastai.py)\<close>

text \<open>
  A shallow embedding of \<^verbatim>\<open>NNFastAiTabularModel\<close>. Python exceptions are values of
  \<open>error\<close>; a call that may raise returns \<open>error + 'a\<close> with \<open>Inl\<close> the exception.
  Python integers are \<open>int\<close>, lengths are \<open>nat\<close>, floating-point numbers are idealised as
  \<open>real\<close> (no property below depends on rounding).
\<close>

subsection \<open>Exceptions and constants\<close>

datatype error =
    KeyError string
  | ValueError string
  | AttributeError string
  | TypeError string
  | NameError string
  | IndexError string

text \<open>Failure propagation: the rest of a block runs only when the call returned.\<close>

definition bind :: "error + 'a \<Rightarrow> ('a \<Rightarrow> error + 'b) \<Rightarrow> error + 'b" where
  "bind r f = (case r of Inl e \<Rightarrow> Inl e | Inr v \<Rightarrow> f v)"

text \<open>Lines 37--38 and 73 of the module.\<close>

definition LABEL :: string where
  "LABEL = ''__label__''"

definition MISSING :: string where
  "MISSING = ''__!#ag_internal_missing#!__''"

definition model_internals_file_name :: string where
  "model_internals_file_name = ''model-internals.pkl''"

text \<open>
  Modelled from the spec: the problem-type constants of \<^verbatim>\<open>autogluon.core.constants\<close> are not
  part of the sources at hand; the spec gives the enumeration as binary, multiclass and
  regression.
\<close>

datatype problem_type = BINARY | MULTICLASS | REGRESSION

subsection \<open>Hyperparameters and the decisions taken in \<open>_fit\<close>\<close>

text \<open>
  The \<^verbatim>\<open>params\<close> dictionary, restricted to the keys the modelled code reads.
  \<^verbatim>\<open>'layers'\<close> and \<^verbatim>\<open>'max_unique_categorical_values'\<close> are read with \<^verbatim>\<open>.get\<close> and a default, so
  they are optional; \<^verbatim>\<open>'bs'\<close> is read by subscript and is always set by the defaults.
\<close>

record hyperparameters =
  layers :: "int list option"
  bs :: int
  max_unique_categorical_values :: "int option"

text \<open>
  Lines 206--212: the layer sizes handed to \<^verbatim>\<open>tabular_learner\<close>; \<open>c\<close> is \<^verbatim>\<open>data.c\<close>, the number of
  classes.
\<close>

definition fit_layers :: "hyperparameters \<Rightarrow> problem_type \<Rightarrow> int \<Rightarrow> int list" where
  "fit_layers ps pt c =
     (case layers ps of
        Some ls \<Rightarrow> ls
      | None \<Rightarrow>
          if pt \<in> {REGRESSION, BINARY} then [200, 100]
          else (let base_size = max (c * 2) 100 in [base_size * 2, base_size]))"

text \<open>Line 223: the batch size handed to \<^verbatim>\<open>data.dataloaders\<close>; \<open>len_X\<close> is \<^verbatim>\<open>len(X)\<close>.\<close>

definition fit_bs :: "hyperparameters \<Rightarrow> nat \<Rightarrow> int" where
  "fit_bs ps len_X = (if int len_X > bs ps then bs ps else 32)"

subsection \<open>Objective selection (\<open>__get_objective_func_name\<close>)\<close>

text \<open>The fastai metric objects of lines 282--311, as tags.\<close>

datatype average = Binary_avg | Macro | Micro | Weighted

datatype nn_metric =
    Rmse | Mse | Mae | R2Score | Accuracy
  | FBeta average | RocAucBinary | Precision average | Recall average

definition metrics_map :: "(string \<times> nn_metric option) list" where
  "metrics_map =
    [(''root_mean_squared_error'', Some Rmse),
     (''mean_squared_error'', Some Mse),
     (''mean_absolute_error'', Some Mae),
     (''r2'', Some R2Score),
     (''accuracy'', Some Accuracy),
     (''f1'', Some (FBeta Binary_avg)),
     (''f1_macro'', Some (FBeta Macro)),
     (''f1_micro'', Some (FBeta Micro)),
     (''f1_weighted'', Some (FBeta Weighted)),
     (''roc_auc'', Some RocAucBinary),
     (''precision'', Some (Precision Binary_avg)),
     (''precision_macro'', Some (Precision Macro)),
     (''precision_micro'', Some (Precision Micro)),
     (''precision_weighted'', Some (Precision Weighted)),
     (''recall'', Some (Recall Binary_avg)),
     (''recall_macro'', Some (Recall Macro)),
     (''recall_micro'', Some (Recall Micro)),
     (''recall_weighted'', Some (Recall Weighted)),
     (''log_loss'', None)]"

text \<open>A record of the logger: the warnings emitted, oldest first.\<close>

datatype log_record = Warning_unsupported_metric string string

text \<open>
  Lines 313--326. The result is \<^verbatim>\<open>(nn_metric, objective_func_name)\<close> together with the
  warnings logged; \<open>name\<close> is \<^verbatim>\<open>self.stopping_metric.name\<close>. The function has no raising branch.
\<close>

definition get_objective_func_name ::
    "problem_type \<Rightarrow> string \<Rightarrow> (nn_metric option \<times> string) \<times> log_record list" where
  "get_objective_func_name pt name =
     (let keys = map fst metrics_map;
          (objective_func_name, logged) =
             (if name \<notin> set keys then
                (let fallback = (if pt = REGRESSION then ''mean_squared_error'' else ''log_loss'')
                 in (fallback, [Warning_unsupported_metric name fallback]))
              else (name, []));
          nn_metric =
             (if objective_func_name \<in> set keys
              then (case map_of metrics_map objective_func_name of Some m \<Rightarrow> m | None \<Rightarrow> None)
              else None)
      in ((nn_metric, objective_func_name), logged))"

subsection \<open>Data frames\<close>

text \<open>
  The part of pandas the module relies on. A cell is a value or null (\<open>None\<close> stands for
  NaN); a column is either of category dtype, carrying its list of categories, or a plain
  series. A frame has its number of rows (the length of its index) and its columns in order;
  column labels are taken to be unique, as they are for the frames the framework passes in.
\<close>

datatype val = Str string | Num real

type_synonym cell = "val option"

datatype column = Categorical "val list" "cell list" | Series "cell list"

fun cells :: "column \<Rightarrow> cell list" where
  "cells (Categorical cats xs) = xs"
| "cells (Series xs) = xs"

record frame =
  index_len :: nat
  columns :: "(string \<times> column) list"

definition column_names :: "frame \<Rightarrow> string list" where
  "column_names df = map fst (columns df)"

text \<open>\<^verbatim>\<open>df[c]\<close> for one label: the column, or KeyError.\<close>

definition getitem :: "frame \<Rightarrow> string \<Rightarrow> error + column" where
  "getitem df c = (case map_of (columns df) c of None \<Rightarrow> Inl (KeyError c) | Some col \<Rightarrow> Inr col)"

text \<open>
  \<^verbatim>\<open>df[labels]\<close> for a list of labels: the listed columns in the order of the list; a label
  that is not a column raises KeyError (reported here for the first such label).
\<close>

fun select_columns :: "(string \<times> column) list \<Rightarrow> string list \<Rightarrow> error + (string \<times> column) list" where
  "select_columns cols [] = Inr []"
| "select_columns cols (c # cs) =
     (case map_of cols c of
        None \<Rightarrow> Inl (KeyError c)
      | Some col \<Rightarrow>
          (case select_columns cols cs of Inl e \<Rightarrow> Inl e | Inr rest \<Rightarrow> Inr ((c, col) # rest)))"

definition getitem_list :: "frame \<Rightarrow> string list \<Rightarrow> error + frame" where
  "getitem_list df labels =
     bind (select_columns (columns df) labels) (\<lambda>cols. Inr (df\<lparr>columns := cols\<rparr>))"

text \<open>\<^verbatim>\<open>df[c] = col\<close>: replaces the column in place, or appends a new one.\<close>

definition setitem :: "frame \<Rightarrow> string \<Rightarrow> column \<Rightarrow> frame" where
  "setitem df c col =
     (if c \<in> set (column_names df)
      then df\<lparr>columns := map (\<lambda>(n, x). if n = c then (n, col) else (n, x)) (columns df)\<rparr>
      else df\<lparr>columns := columns df @ [(c, col)]\<rparr>)"

text \<open>
  \<^verbatim>\<open>col.cat.add_categories(v)\<close>: the \<^verbatim>\<open>.cat\<close> accessor exists on category dtype only, and
  pandas refuses a new category that is already one.
\<close>

fun cat_add_categories :: "column \<Rightarrow> val \<Rightarrow> error + column" where
  "cat_add_categories (Series xs) v = Inl (AttributeError ''Can only use .cat accessor with a category dtype'')"
| "cat_add_categories (Categorical cats xs) v =
     (if v \<in> set cats then Inl (ValueError ''new categories must not include old categories'')
      else Inr (Categorical (cats @ [v]) xs))"

text \<open>
  \<^verbatim>\<open>col.fillna(v)\<close>: nulls become \<open>v\<close>; filling with NaN changes nothing; a category
  column validates that the fill value is one of its categories.
\<close>

definition fill_cell :: "cell \<Rightarrow> cell \<Rightarrow> cell" where
  "fill_cell v x = (case x of None \<Rightarrow> v | Some y \<Rightarrow> Some y)"

fun fillna :: "column \<Rightarrow> cell \<Rightarrow> error + column" where
  "fillna (Series xs) v = Inr (Series (map (fill_cell v) xs))"
| "fillna (Categorical cats xs) None = Inr (Categorical cats xs)"
| "fillna (Categorical cats xs) (Some v) =
     (if v \<in> set cats then Inr (Categorical cats (map (fill_cell (Some v)) xs))
      else Inl (ValueError ''fill value must be in categories''))"

text \<open>
  \<^verbatim>\<open>col.mean()\<close>: the mean of the non-null numbers, NaN when there is none; not defined for
  category dtype or for strings.
\<close>

fun numbers :: "cell list \<Rightarrow> error + real list" where
  "numbers [] = Inr []"
| "numbers (None # xs) = numbers xs"
| "numbers (Some (Num r) # xs) = (case numbers xs of Inl e \<Rightarrow> Inl e | Inr rs \<Rightarrow> Inr (r # rs))"
| "numbers (Some (Str s) # xs) = Inl (TypeError ''could not convert string to numeric'')"

fun mean :: "column \<Rightarrow> error + cell" where
  "mean (Categorical cats xs) = Inl (TypeError ''category dtype does not support mean'')"
| "mean (Series xs) =
     (case numbers xs of
        Inl e \<Rightarrow> Inl e
      | Inr rs \<Rightarrow> Inr (if rs = [] then None else Some (Num (sum_list rs / real (length rs)))))"

text \<open>
  \<^verbatim>\<open>pd.concat([a, b], ignore_index=True)\<close> and \<^verbatim>\<open>pd.concat([a, b]).reset_index(drop=True)\<close>: rows
  of \<open>a\<close>, then rows of \<open>b\<close>, renumbered. A \<^verbatim>\<open>None\<close> in the list is skipped. Two category
  columns keep category dtype (with the categories of the first) when they have the same
  categories in any order, and a category column joined with anything else becomes a plain
  series. A column missing on one side is null in the rows of that side and keeps the dtype
  it has on the other.
\<close>

fun concat_column :: "column \<Rightarrow> column \<Rightarrow> column" where
  "concat_column (Categorical cats xs) (Categorical cats' ys) =
     (if set cats = set cats' then Categorical cats (xs @ ys) else Series (xs @ ys))"
| "concat_column (Categorical cats xs) (Series ys) = Series (xs @ ys)"
| "concat_column (Series xs) b = Series (xs @ cells b)"

fun pad_nulls :: "nat \<Rightarrow> column \<Rightarrow> nat \<Rightarrow> column" where
  "pad_nulls before (Categorical cats xs) after =
     Categorical cats (replicate before None @ xs @ replicate after None)"
| "pad_nulls before (Series xs) after = Series (replicate before None @ xs @ replicate after None)"

definition concat_outer :: "frame \<Rightarrow> frame \<Rightarrow> string \<Rightarrow> column" where
  "concat_outer a b c =
     (case (map_of (columns a) c, map_of (columns b) c) of
        (Some x, Some y) \<Rightarrow> concat_column x y
      | (Some x, None) \<Rightarrow> pad_nulls 0 x (index_len b)
      | (None, Some y) \<Rightarrow> pad_nulls (index_len a) y 0
      | (None, None) \<Rightarrow> Series (replicate (index_len a + index_len b) None))"

definition pd_concat :: "frame \<Rightarrow> frame option \<Rightarrow> frame" where
  "pd_concat a b_opt =
     (case b_opt of
        None \<Rightarrow> a
      | Some b \<Rightarrow>
          \<lparr>index_len = index_len a + index_len b,
           columns =
             (if column_names a = column_names b
              then map (\<lambda>((n, x), (m, y)). (n, concat_column x y)) (zip (columns a) (columns b))
              else map (\<lambda>n. (n, concat_outer a b n))
                     (column_names a @ filter (\<lambda>n. n \<notin> set (column_names a)) (column_names b)))\<rparr>)"

text \<open>The same for two label series, as lists of cells.\<close>

definition concat_series :: "cell list \<Rightarrow> cell list option \<Rightarrow> cell list" where
  "concat_series y y_opt = (case y_opt of None \<Rightarrow> y | Some y' \<Rightarrow> y @ y')"

text \<open>
  \<^verbatim>\<open>df[c] = series\<close> aligns the series with the index of the frame: row \<open>i\<close> takes the
  series' entry \<open>i\<close>, or null when the series is shorter.
\<close>

definition reindex :: "nat \<Rightarrow> cell list \<Rightarrow> cell list" where
  "reindex n ys = map (\<lambda>i. if i < length ys then ys ! i else None) [0..<n]"

definition setitem_series :: "frame \<Rightarrow> string \<Rightarrow> cell list \<Rightarrow> frame" where
  "setitem_series df c ys = setitem df c (Series (reindex (index_len df) ys))"

text \<open>\<^verbatim>\<open>df.iloc[idx]\<close>: the rows at the given positions (all of them in range).\<close>

fun take_rows :: "nat list \<Rightarrow> column \<Rightarrow> column" where
  "take_rows idx (Categorical cats xs) = Categorical cats (map (\<lambda>i. xs ! i) idx)"
| "take_rows idx (Series xs) = Series (map (\<lambda>i. xs ! i) idx)"

definition iloc :: "frame \<Rightarrow> nat list \<Rightarrow> frame" where
  "iloc df idx = \<lparr>index_len = length idx, columns = map (\<lambda>(n, col). (n, take_rows idx col)) (columns df)\<rparr>"

text \<open>Every column of a frame has one cell per row.\<close>

definition rectangular :: "frame \<Rightarrow> bool" where
  "rectangular df = list_all (\<lambda>(n, col). length (cells col) = index_len df) (columns df)"

text \<open>A \<^verbatim>\<open>for\<close> loop whose body may raise: the first exception ends the loop.\<close>

fun for_each :: "('a \<Rightarrow> 's \<Rightarrow> error + 's) \<Rightarrow> 'a list \<Rightarrow> 's \<Rightarrow> error + 's" where
  "for_each body [] s = Inr s"
| "for_each body (x # xs) s =
     (case body x s of Inl e \<Rightarrow> Inl e | Inr s' \<Rightarrow> for_each body xs s')"

subsection \<open>The model object and its collaborators\<close>

text \<open>
  The fastai learner as far as \<^verbatim>\<open>export\<close> touches it: the network, the data loaders (by
  the number of items they hold), the optimizer with its state, and the per-batch attributes
  that \<^verbatim>\<open>_end_cleanup\<close> clears.
\<close>

record learner =
  weights :: "real list"
  dls :: nat
  opt :: "real list option"
  batch_attrs :: "real list option"

text \<open>
  The attributes of \<^verbatim>\<open>NNFastAiTabularModel\<close> (lines 75--83 and the inherited ones that are
  read). The schema attributes are \<^verbatim>\<open>None\<close> until the first fit; the record describes the
  object from then on. \<open>'sc\<close> is the type of the target scaler.
\<close>

record 'sc model_state =
  path :: string
  params :: hyperparameters
  problem_type :: problem_type
  cat_columns :: "string list"
  cont_columns :: "string list"
  columns_fills :: "(string \<times> cell) list"
  inner_features :: "string list"
  y_scaler :: "'sc option"
  model :: "learner option"
  load_model :: "bool option"

text \<open>A two-dimensional tensor of predictions: its number of columns and its rows.\<close>

record tensor =
  ncols :: nat
  trows :: "real list list"

text \<open>
  What the class calls but does not define, taken as parameters:
  \<^item> \<open>base_preprocess\<close>: the base-class preprocessing that runs before line 124
    (\<^verbatim>\<open>super()._preprocess\<close>);
  \<^item> \<open>features_cat\<close>, \<open>features_cont\<close>: the answers of \<^verbatim>\<open>feature_metadata.get_features\<close> for
    the raw types object, category, bool and for int, float, datetime (lines 125--126);
  \<^item> \<open>describe_unique\<close>: the \<^verbatim>\<open>unique\<close> statistic per column as computed by
    \<^verbatim>\<open>X.describe(include='all')\<close> (line 128 and the column access of line 129), null where
    pandas reports NaN, or the exception it raises;
  \<^item> \<open>get_preds\<close>: \<^verbatim>\<open>model.dls.test_dl\<close> followed by \<^verbatim>\<open>model.get_preds\<close> (lines 360--363);
  \<^item> \<open>inverse_transform\<close>: the scaler's method of that name;
  \<^item> \<open>rank_distrib\<close>: the rank of the process, zero in the main process.
\<close>

record 'sc env =
  base_preprocess :: "frame \<Rightarrow> error + frame"
  features_cat :: "string list"
  features_cont :: "string list"
  describe_unique :: "frame \<Rightarrow> error + (string \<times> nat option) list"
  get_preds :: "learner \<Rightarrow> frame \<Rightarrow> tensor"
  inverse_transform :: "'sc \<Rightarrow> tensor \<Rightarrow> tensor"
  rank_distrib :: nat

subsection \<open>Missing-value imputer (\<open>_fill_missing\<close>)\<close>

definition dict_getitem :: "(string \<times> 'v) list \<Rightarrow> string \<Rightarrow> error + 'v" where
  "dict_getitem d k = (case map_of d k of None \<Rightarrow> Inl (KeyError k) | Some v \<Rightarrow> Inr v)"

text \<open>Lines 150--151, the body of the loop over the categorical columns.\<close>

definition fill_cat_column :: "(string \<times> cell) list \<Rightarrow> string \<Rightarrow> frame \<Rightarrow> error + frame" where
  "fill_cat_column fills c df =
     bind (getitem df c) (\<lambda>col.
     bind (cat_add_categories col (Str MISSING)) (\<lambda>col1.
     let df1 = setitem df c col1 in
     bind (getitem df1 c) (\<lambda>col2.
     bind (dict_getitem fills c) (\<lambda>v.
     bind (fillna col2 v) (\<lambda>col3.
     Inr (setitem df1 c col3))))))"

text \<open>Line 153, the body of the loop over the continuous columns.\<close>

definition fill_cont_column :: "(string \<times> cell) list \<Rightarrow> string \<Rightarrow> frame \<Rightarrow> error + frame" where
  "fill_cont_column fills c df =
     bind (getitem df c) (\<lambda>col.
     bind (dict_getitem fills c) (\<lambda>v.
     bind (fillna col v) (\<lambda>col1.
     Inr (setitem df c col1))))"

text \<open>Lines 147--154. The frame passed in is not modified (line 148 copies).\<close>

definition fill_missing :: "'sc model_state \<Rightarrow> frame \<Rightarrow> error + frame" where
  "fill_missing self df =
     bind (getitem_list df (inner_features self)) (\<lambda>df0.
     bind (for_each (fill_cat_column (columns_fills self)) (cat_columns self) df0) (\<lambda>df1.
     for_each (fill_cont_column (columns_fills self)) (cont_columns self) df1))"

subsection \<open>Feature classifier and preprocessing (\<open>_preprocess\<close>)\<close>

text \<open>Lines 127--131: the columns to drop for their cardinality, empty when the statistics fail.\<close>

definition cat_cols_to_drop :: "'sc env \<Rightarrow> hyperparameters \<Rightarrow> frame \<Rightarrow> string list" where
  "cat_cols_to_drop env ps X =
     (case describe_unique env X of
        Inl e \<Rightarrow> []
      | Inr X_stats \<Rightarrow>
          map fst (filter (\<lambda>(idx, unique).
            (case unique of
               None \<Rightarrow> True
             | Some u \<Rightarrow> int u > (case max_unique_categorical_values ps of None \<Rightarrow> 10000 | Some m \<Rightarrow> m)))
            X_stats))"

text \<open>
  Lines 142--143: the fill values of the continuous columns. The dictionary is updated in
  place, so what was stored before an exception stays stored.
\<close>

fun cont_fills :: "frame \<Rightarrow> string list \<Rightarrow> (string \<times> cell) list \<Rightarrow> (string \<times> cell) list \<times> error option" where
  "cont_fills X [] fills = (fills, None)"
| "cont_fills X (c # cs) fills =
     (case bind (getitem X c) mean of
        Inl e \<Rightarrow> (fills, Some e)
      | Inr m \<Rightarrow> cont_fills X cs (AList.update c m fills))"

text \<open>
  Lines 122--145. The result is the object after the call and what the call returned or
  raised.
\<close>

definition preprocess :: "'sc env \<Rightarrow> 'sc model_state \<Rightarrow> frame \<Rightarrow> bool \<Rightarrow> 'sc model_state \<times> (error + frame)" where
  "preprocess env self X0 fit =
     (case base_preprocess env X0 of
        Inl e \<Rightarrow> (self, Inl e)
      | Inr X \<Rightarrow>
          if fit then
            (let to_drop = cat_cols_to_drop env (params self) X;
                 cat_cols_to_keep = filter (\<lambda>col. col \<notin> set to_drop) (column_names X);
                 cat_cols_to_use = filter (\<lambda>col. col \<in> set cat_cols_to_keep) (features_cat env);
                 cats = filter (\<lambda>feature. feature \<in> set (column_names X)) cat_cols_to_use;
                 conts = filter (\<lambda>feature. feature \<in> set (column_names X)) (features_cont env);
                 self1 = self\<lparr>cat_columns := cats, cont_columns := conts\<rparr>;
                 fills_cat = fold (\<lambda>c fills. AList.update c (Some (Str MISSING)) fills) cats []
             in case cont_fills X conts fills_cat of
                  (fills, Some e) \<Rightarrow> (self1\<lparr>columns_fills := fills\<rparr>, Inl e)
                | (fills, None) \<Rightarrow>
                    (let self2 = self1\<lparr>columns_fills := fills, inner_features := cats @ conts\<rparr>
                     in (self2, fill_missing self2 X)))
          else (self, fill_missing self X))"

subsection \<open>Dataset assembler (\<open>_generate_datasets\<close>)\<close>

text \<open>
  Lines 268--277. \<^verbatim>\<open>np.arange(n)\<close> is \<open>[0..<n]\<close>; adding a number to an index array adds it to
  each entry.
\<close>

definition generate_datasets ::
    "frame \<Rightarrow> cell list \<Rightarrow> frame option \<Rightarrow> cell list option \<Rightarrow> frame \<times> nat list \<times> nat list" where
  "generate_datasets X y X_val y_val =
     (let df_train = pd_concat X X_val;
          df_train = setitem_series df_train LABEL (concat_series y y_val);
          train_idx = [0..<index_len X]
      in case X_val of
           None \<Rightarrow>
             (let val_idx = map (\<lambda>i. i + length train_idx) train_idx;
                  df_train = pd_concat df_train (Some df_train)
              in (df_train, train_idx, val_idx))
         | Some Xv \<Rightarrow>
             (let val_idx = map (\<lambda>i. i + index_len X) [0..<index_len Xv]
              in (df_train, train_idx, val_idx)))"

subsection \<open>Predictor (\<open>_predict_proba\<close>)\<close>

datatype ndarray = Array1 "real list" | Array2 tensor

text \<open>\<^verbatim>\<open>preds[:1, :]\<close>, \<^verbatim>\<open>preds[:, 1]\<close> and \<^verbatim>\<open>reshape(-1)\<close>.\<close>

definition first_row :: "tensor \<Rightarrow> tensor" where
  "first_row t = t\<lparr>trows := take 1 (trows t)\<rparr>"

definition column_1 :: "tensor \<Rightarrow> error + real list" where
  "column_1 t =
     (if 1 < ncols t then Inr (map (\<lambda>r. r ! 1) (trows t))
      else Inl (IndexError ''index 1 is out of bounds for dimension 1''))"

definition reshape_flat :: "tensor \<Rightarrow> real list" where
  "reshape_flat t = concat (trows t)"

text \<open>
  Lines 351--374; \<^verbatim>\<open>self.preprocess\<close> reaches line 122 with \<^verbatim>\<open>fit\<close> left at its default.
\<close>

definition predict_proba :: "'sc env \<Rightarrow> 'sc model_state \<Rightarrow> frame \<Rightarrow> error + ndarray" where
  "predict_proba env self X0 =
     bind (snd (preprocess env self X0 False)) (\<lambda>X.
       let single_row = (index_len X = 1);
           X1 = (if single_row then pd_concat X (Some X) else X)
       in case model self of
            None \<Rightarrow> Inl (AttributeError ''NoneType object has no attribute dls'')
          | Some m \<Rightarrow>
              (let preds = get_preds env m X1;
                   preds = (if single_row then first_row preds else preds)
               in if problem_type self = REGRESSION then
                    (case y_scaler self of
                       Some sc \<Rightarrow> Inr (Array1 (reshape_flat (inverse_transform env sc preds)))
                     | None \<Rightarrow> Inr (Array1 (reshape_flat preds)))
                  else if problem_type self = BINARY then
                    bind (column_1 preds) (\<lambda>v. Inr (Array1 v))
                  else Inr (Array2 preds)))"

text \<open>The first row of a prediction, \<^verbatim>\<open>out[:1]\<close>.\<close>

fun head_rows :: "ndarray \<Rightarrow> ndarray" where
  "head_rows (Array1 v) = Array1 (take 1 v)"
| "head_rows (Array2 t) = Array2 (first_row t)"

subsection \<open>Persistence (\<open>save\<close>, \<open>export\<close>)\<close>

text \<open>
  Lines 393--412 for a stream target, as \<^verbatim>\<open>save\<close> calls it: the learner after the call, and
  what was written to the stream (nothing in a child process).
\<close>

definition export :: "nat \<Rightarrow> learner \<Rightarrow> learner \<times> learner option" where
  "export rank m =
     (if rank \<noteq> 0 then (m, None)
      else
        (let m = m\<lparr>batch_attrs := None\<rparr>;
             old_dbunch = dls m;
             m = m\<lparr>dls := 0\<rparr>;
             state = opt m;
             m = m\<lparr>opt := None\<rparr>;
             written = m;
             m = m\<lparr>opt := Some []\<rparr>;
             m = (case state of Some st \<Rightarrow> m\<lparr>opt := Some st\<rparr> | None \<Rightarrow> m);
             m = m\<lparr>dls := old_dbunch\<rparr>
         in (m, Some written)))"

text \<open>The files written, oldest first: the pickled object, or the exported learner.\<close>

datatype 'sc artifact = Configuration "'sc model_state" | Model_internals "learner option"

text \<open>
  Modelled from the spec: the base class's \<^verbatim>\<open>save\<close> is not part of the sources at hand.
  Following the spec's persistence layer, it writes the configuration object as it is at
  the time of the call to the configuration file under the model directory (the object's own
  path when none is given) and returns that directory.
\<close>

definition model_file_name :: string where
  "model_file_name = ''model.pkl''"

definition base_save ::
    "'sc model_state \<Rightarrow> (string \<times> 'sc artifact) list \<Rightarrow> string option
       \<Rightarrow> (string \<times> 'sc artifact) list \<times> string" where
  "base_save self files path_opt =
     (let p = (case path_opt of None \<Rightarrow> path self | Some p \<Rightarrow> p)
      in (files @ [(p @ model_file_name, Configuration self)], p))"

text \<open>
  The names bound where line 385 is evaluated, with the text an f-string renders for them:
  the parameters and the local of \<^verbatim>\<open>save\<close>, then the names the module binds at top level
  (lines 1--45). Only \<^verbatim>\<open>path\<close> and the string constants have a rendering that matters; none of
  Python's built-in names is \<^verbatim>\<open>path_final\<close>.
\<close>

definition save_scope :: "string \<Rightarrow> (string \<times> string) list" where
  "save_scope path_value =
     [(''path'', path_value), (''LABEL'', LABEL), (''MISSING'', MISSING)] @
     map (\<lambda>n. (n, ''<'' @ n @ ''>''))
       [''self'', ''verbose'', ''_NNFastAiTabularModel__model'',
        ''copy'', ''logging'', ''pickle'', ''time'', ''warnings'', ''classmethod'', ''Path'',
        ''Any'', ''np'', ''pd'', ''REGRESSION'', ''BINARY'', ''R_OBJECT'', ''R_INT'', ''R_FLOAT'',
        ''R_DATETIME'', ''R_CATEGORY'', ''R_BOOL'', ''AbstractModel'', ''skip_hpo'',
        ''try_import_fastai'', ''make_temp_directory'', ''load_pkl'', ''is_fork_enabled'',
        ''save_pkl'', ''get_param_baseline'', ''get_default_searchspace'', ''logger'',
        ''NNFastAiTabularModel'']"

definition name_lookup :: "(string \<times> string) list \<Rightarrow> string \<Rightarrow> error + string" where
  "name_lookup scope n = (case map_of scope n of None \<Rightarrow> Inl (NameError n) | Some v \<Rightarrow> Inr v)"

text \<open>
  Lines 376--391. The result is the object and the files after the call, and the path
  returned or the exception raised.
\<close>

definition save ::
    "'sc env \<Rightarrow> 'sc model_state \<Rightarrow> (string \<times> 'sc artifact) list \<Rightarrow> string option
       \<Rightarrow> ('sc model_state \<times> (string \<times> 'sc artifact) list) \<times> (error + string)" where
  "save env self files path_opt =
     (let self = self\<lparr>load_model := Some (model self \<noteq> None)\<rparr>;
          mangled_model = model self;
          self = self\<lparr>model := None\<rparr>;
          (files, path_value) = base_save self files path_opt;
          self = self\<lparr>model := mangled_model\<rparr>
      in if load_model self = Some True then
           (case name_lookup (save_scope path_value) ''path_final'' of
              Inl e \<Rightarrow> ((self, files), Inl e)
            | Inr path_final \<Rightarrow>
                (case model self of
                   None \<Rightarrow> ((self\<lparr>load_model := None\<rparr>,
                              files @ [(path_final @ model_internals_file_name, Model_internals None)]),
                             Inr path_value)
                 | Some m \<Rightarrow>
                     (let (m', written) = export (rank_distrib env) m
                      in ((self\<lparr>model := Some m', load_model := None\<rparr>,
                           files @ [(path_final @ model_internals_file_name, Model_internals written)]),
                          Inr path_value))))
         else ((self\<lparr>load_model := None\<rparr>, files), Inr path_value))"

subsection \<open>Example inputs\<close>

text \<open>A small training frame with one categorical and one continuous feature, and labels.\<close>

definition ex_X :: frame where
  "ex_X = \<lparr>index_len = 2,
           columns = [(''color'', Categorical [Str ''red'', Str ''blue''] [Some (Str ''red''), None]),
                      (''size'', Series [Some (Num 1), None])]\<rparr>"

definition ex_y :: "cell list" where
  "ex_y = [Some (Num 0), Some (Num 1)]"

definition ex_X_val :: frame where
  "ex_X_val = \<lparr>index_len = 1,
           columns = [(''color'', Categorical [Str ''red'', Str ''blue''] [Some (Str ''blue'')]),
                      (''size'', Series [Some (Num 5)])]\<rparr>"

definition ex_y_val :: "cell list" where
  "ex_y_val = [Some (Num 1)]"

text \<open>
  Collaborators for the examples: a base class that passes the frame on, feature metadata
  declaring \<open>color\<close> categorical and \<open>size\<close> continuous, statistics with two distinct
  colours, a network that predicts the same two class probabilities for every row, and a
  scaler \<open>(a, b)\<close> that maps \<open>x\<close> back to \<open>a * x + b\<close>.
\<close>

definition ex_env :: "(real \<times> real) env" where
  "ex_env = \<lparr>base_preprocess = Inr,
             features_cat = [''color''],
             features_cont = [''size''],
             describe_unique = (\<lambda>X. Inr [(''color'', Some 2), (''size'', None)]),
             get_preds = (\<lambda>m X. \<lparr>ncols = 2, trows = map (\<lambda>i. [1 / 4, 3 / 4]) [0..<index_len X]\<rparr>),
             inverse_transform = (\<lambda>(a, b) t. t\<lparr>trows := map (map (\<lambda>x. a * x + b)) (trows t)\<rparr>),
             rank_distrib = 0\<rparr>"

text \<open>The object before the first fit, after it, and the training frame as returned by the fit.\<close>

definition ex_init :: "(real \<times> real) model_state" where
  "ex_init = \<lparr>path = ''models/nn/'',
              params = \<lparr>layers = None, bs = 256, max_unique_categorical_values = None\<rparr>,
              problem_type = BINARY,
              cat_columns = [], cont_columns = [], columns_fills = [], inner_features = [],
              y_scaler = None, model = None, load_model = None\<rparr>"

definition ex_fitted :: "(real \<times> real) model_state" where
  "ex_fitted = ex_init\<lparr>cat_columns := [''color''], cont_columns := [''size''],
                        columns_fills := [(''color'', Some (Str MISSING)), (''size'', Some (Num 1))],
                        inner_features := [''color'', ''size'']\<rparr>"

definition ex_filled :: frame where
  "ex_filled = \<lparr>index_len = 2,
           columns = [(''color'', Categorical [Str ''red'', Str ''blue'', Str MISSING] [Some (Str ''red''), Some (Str MISSING)]),
                      (''size'', Series [Some (Num 1), Some (Num 1)])]\<rparr>"

text \<open>
  A frame seen later, with an extra column and the schema columns in another order, what the
  imputer returns for it, and a frame that lacks the column \<open>size\<close>.
\<close>

definition ex_new :: frame where
  "ex_new = \<lparr>index_len = 1,
           columns = [(''id'', Series [Some (Num 7)]),
                      (''size'', Series [None]),
                      (''color'', Categorical [Str ''red'', Str ''blue''] [None])]\<rparr>"


definition ex_incomplete :: frame where
  "ex_incomplete = \<lparr>index_len = 1,
           columns = [(''id'', Series [Some (Num 7)]),
                      (''color'', Categorical [Str ''red'', Str ''blue''] [None])]\<rparr>"

text \<open>The same collaborators with failing statistics.\<close>

definition ex_env_no_stats :: "(real \<times> real) env" where
  "ex_env_no_stats = ex_env\<lparr>describe_unique := (\<lambda>X. Inl (KeyError ''unique''))\<rparr>"

text \<open>The object fitted when no categorical feature is declared, and the frame returned then.\<close>

definition ex_fitted_cont :: "(real \<times> real) model_state" where
  "ex_fitted_cont = ex_init\<lparr>cont_columns := [''size''],
                        columns_fills := [(''size'', Some (Num 1))],
                        inner_features := [''size'']\<rparr>"

definition ex_filled_cont :: frame where
  "ex_filled_cont = \<lparr>index_len = 2, columns = [(''size'', Series [Some (Num 1), Some (Num 1)])]\<rparr>"

text \<open>
  A trained learner and the fitted object holding it; collaborators whose network predicts
  one value per row, and the object set up for regression with the scaler
  \<open>x \<mapsto> 2 * x + 1\<close>.
\<close>

definition ex_learner :: learner where
  "ex_learner = \<lparr>weights = [1 / 2], dls = 3, opt = Some [1 / 10], batch_attrs = Some [0]\<rparr>"

definition ex_trained :: "(real \<times> real) model_state" where
  "ex_trained = ex_fitted\<lparr>model := Some ex_learner\<rparr>"

definition ex_env_regression :: "(real \<times> real) env" where
  "ex_env_regression =
     ex_env\<lparr>get_preds := (\<lambda>m X. \<lparr>ncols = 1, trows = map (\<lambda>i. [1 / 2]) [0..<index_len X]\<rparr>)\<rparr>"

definition ex_trained_regression :: "(real \<times> real) model_state" where
  "ex_trained_regression = ex_trained\<lparr>problem_type := REGRESSION, y_scaler := Some (2, 1)\<rparr>"

subsection \<open>Notions used in the proofs\<close>

text \<open>
  Every entry of a column list is the one a lookup of its label finds; and: the column \<open>c\<close>
  of a frame is of category dtype and has the sentinel among its categories.
\<close>

definition first_entries :: "(string \<times> column) list \<Rightarrow> bool" where
  "first_entries cols = list_all (\<lambda>(n, x). map_of cols n = Some x) cols"

definition has_sentinel :: "frame \<Rightarrow> string \<Rightarrow> bool" where
  "has_sentinel df c =
     (case map_of (columns df) c of
        Some (Categorical cats xs) \<Rightarrow> Str MISSING \<in> set cats
      | _ \<Rightarrow> False)"

text \<open>A tensor with one value per row, as a network with a single output produces.\<close>

definition single_column :: "tensor \<Rightarrow> bool" where
  "single_column t = list_all (\<lambda>r. length r = 1) (trows t)"

section \<open>Properties\<close>

subsection \<open>Architecture sizer\<close>

lemma fit_layers_explicit: "layers ps = Some ls \<Longrightarrow> fit_layers ps pt c = ls"
  by (simp add: fit_layers_def)

lemma fit_layers_fixed:
  "layers ps = None \<Longrightarrow> pt = BINARY \<or> pt = REGRESSION \<Longrightarrow> fit_layers ps pt c = [200, 100]"
  by (auto simp: fit_layers_def)

lemma fit_layers_multiclass:
  "layers ps = None \<Longrightarrow> fit_layers ps MULTICLASS c = [2 * max (2 * c) 100, max (2 * c) 100]"
  by (simp add: fit_layers_def Let_def mult.commute)

text \<open>
  C5, as stated, read literally: in the multi-class case the two layers are
  \<open>max (2 * num_classes) 100\<close> and half of it. The code doubles the base size for the first
  layer instead: with three classes it asks for \<open>[200, 100]\<close>, not \<open>[100, 50]\<close>.
\<close>

theorem fit_layers_half_width_counterexample:
  "fit_layers \<lparr>layers = None, bs = 256, max_unique_categorical_values = None\<rparr> MULTICLASS 3
     \<noteq> [max (2 * 3) 100, max (2 * 3) 100 div 2]"
  by (simp add: fit_layers_def)

text \<open>
  C5 (amended): an explicit layer-size list is used verbatim; otherwise binary and regression
  problems get the fixed shape \<open>[200, 100]\<close>; otherwise, with
  \<open>base = max (2 * num_classes) 100\<close>, the layers are \<open>[2 * base, base]\<close>.
\<close>

theorem fit_layers_decision_table:
  "(\<forall>ls. layers ps = Some ls \<longrightarrow> fit_layers ps pt c = ls) \<and>
   (layers ps = None \<and> (pt = BINARY \<or> pt = REGRESSION) \<longrightarrow> fit_layers ps pt c = [200, 100]) \<and>
   (layers ps = None \<and> pt = MULTICLASS \<longrightarrow>
      fit_layers ps pt c = [2 * max (2 * c) 100, max (2 * c) 100])"
  using fit_layers_explicit fit_layers_fixed fit_layers_multiclass by blast

theorem fit_layers_decision_table_witness:
  "fit_layers \<lparr>layers = Some [64, 32, 16], bs = 256, max_unique_categorical_values = None\<rparr> MULTICLASS 7
     = [64, 32, 16] \<and>
   fit_layers \<lparr>layers = None, bs = 256, max_unique_categorical_values = None\<rparr> BINARY 2 = [200, 100] \<and>
   fit_layers \<lparr>layers = None, bs = 256, max_unique_categorical_values = None\<rparr> REGRESSION 1 = [200, 100] \<and>
   fit_layers \<lparr>layers = None, bs = 256, max_unique_categorical_values = None\<rparr> MULTICLASS 70 = [280, 140]"
proof -
  have a: "fit_layers \<lparr>layers = Some [64, 32, 16], bs = 256, max_unique_categorical_values = None\<rparr> MULTICLASS 7
      = [64, 32, 16]"
    using fit_layers_decision_table
      [of "\<lparr>layers = Some [64, 32, 16], bs = 256, max_unique_categorical_values = None\<rparr>" MULTICLASS 7]
    by simp
  have b: "fit_layers \<lparr>layers = None, bs = 256, max_unique_categorical_values = None\<rparr> BINARY 2 = [200, 100]"
    using fit_layers_decision_table
      [of "\<lparr>layers = None, bs = 256, max_unique_categorical_values = None\<rparr>" BINARY 2]
    by simp
  have c: "fit_layers \<lparr>layers = None, bs = 256, max_unique_categorical_values = None\<rparr> REGRESSION 1 = [200, 100]"
    using fit_layers_decision_table
      [of "\<lparr>layers = None, bs = 256, max_unique_categorical_values = None\<rparr>" REGRESSION 1]
    by simp
  have d: "fit_layers \<lparr>layers = None, bs = 256, max_unique_categorical_values = None\<rparr> MULTICLASS 70 = [280, 140]"
    using fit_layers_decision_table
      [of "\<lparr>layers = None, bs = 256, max_unique_categorical_values = None\<rparr>" MULTICLASS 70]
    by simp
  from a b c d show ?thesis by blast
qed

subsection \<open>Batch size\<close>

text \<open>
  C10, as stated: the batch size equals the configured \<open>bs\<close> only when the number of
  training rows strictly exceeds \<open>bs\<close>. With \<open>bs = 32\<close> and ten training rows the batch
  size is 32, which is the configured \<open>bs\<close>, although ten does not exceed 32.
\<close>

theorem fit_bs_only_when_counterexample:
  "fit_bs \<lparr>layers = None, bs = 32, max_unique_categorical_values = None\<rparr> 10
     = bs \<lparr>layers = None, bs = 32, max_unique_categorical_values = None\<rparr> \<and>
   \<not> int 10 > bs \<lparr>layers = None, bs = 32, max_unique_categorical_values = None\<rparr>"
  by (simp add: fit_bs_def)

text \<open>
  C10 (amended): the batch size is the configured \<open>bs\<close> when the number of training rows
  strictly exceeds it, and 32 whenever the training set has at most \<open>bs\<close> rows; so it equals
  \<open>bs\<close> exactly when the rows exceed \<open>bs\<close> or \<open>bs\<close> is itself 32.
\<close>

theorem fit_bs_threshold:
  "(int len_X > bs ps \<longrightarrow> fit_bs ps len_X = bs ps) \<and>
   (int len_X \<le> bs ps \<longrightarrow> fit_bs ps len_X = 32) \<and>
   (fit_bs ps len_X = bs ps \<longleftrightarrow> int len_X > bs ps \<or> bs ps = 32)"
  by (auto simp: fit_bs_def)

theorem fit_bs_threshold_witness:
  "fit_bs \<lparr>layers = None, bs = 256, max_unique_categorical_values = None\<rparr> 257 = 256 \<and>
   fit_bs \<lparr>layers = None, bs = 256, max_unique_categorical_values = None\<rparr> 256 = 32 \<and>
   fit_bs \<lparr>layers = None, bs = 256, max_unique_categorical_values = None\<rparr> 10 = 32 \<and>
   fit_bs \<lparr>layers = None, bs = 32, max_unique_categorical_values = None\<rparr> 10 = 32"
  using fit_bs_threshold [where len_X = 257 and ps = "\<lparr>layers = None, bs = 256, max_unique_categorical_values = None\<rparr>"]
        fit_bs_threshold [where len_X = 256 and ps = "\<lparr>layers = None, bs = 256, max_unique_categorical_values = None\<rparr>"]
        fit_bs_threshold [where len_X = 10 and ps = "\<lparr>layers = None, bs = 256, max_unique_categorical_values = None\<rparr>"]
        fit_bs_threshold [where len_X = 10 and ps = "\<lparr>layers = None, bs = 32, max_unique_categorical_values = None\<rparr>"]
  by simp

subsection \<open>Objective selection\<close>

lemma metrics_map_keys:
  "map fst metrics_map =
    [''root_mean_squared_error'', ''mean_squared_error'', ''mean_absolute_error'', ''r2'',
     ''accuracy'', ''f1'', ''f1_macro'', ''f1_micro'', ''f1_weighted'', ''roc_auc'',
     ''precision'', ''precision_macro'', ''precision_micro'', ''precision_weighted'',
     ''recall'', ''recall_macro'', ''recall_micro'', ''recall_weighted'', ''log_loss'']"
  by (simp add: metrics_map_def)

lemma fallback_supported:
  "''mean_squared_error'' \<in> set (map fst metrics_map)" "''log_loss'' \<in> set (map fst metrics_map)"
  by (simp_all add: metrics_map_keys)

lemma get_objective_func_name_unsupported:
  assumes "name \<notin> set (map fst metrics_map)"
  shows "snd (fst (get_objective_func_name pt name)) =
           (if pt = REGRESSION then ''mean_squared_error'' else ''log_loss'')"
    and "snd (get_objective_func_name pt name) =
           [Warning_unsupported_metric name
              (if pt = REGRESSION then ''mean_squared_error'' else ''log_loss'')]"
  using assms by (simp_all add: get_objective_func_name_def Let_def)

lemma get_objective_func_name_supported:
  assumes "name \<in> set (map fst metrics_map)"
  shows "snd (fst (get_objective_func_name pt name)) = name"
    and "snd (get_objective_func_name pt name) = []"
  using assms by (simp_all add: get_objective_func_name_def Let_def)

text \<open>
  C7: a stopping-metric name outside the metrics table resolves to
  \<open>mean_squared_error\<close> for regression and to \<open>log_loss\<close> otherwise, with one warning
  logged; a supported name is returned unchanged and nothing is logged. The function is total:
  every name gives a result.
\<close>

theorem get_objective_func_name_fallback:
  "(name \<notin> set (map fst metrics_map) \<longrightarrow>
      snd (fst (get_objective_func_name pt name)) =
        (if pt = REGRESSION then ''mean_squared_error'' else ''log_loss'') \<and>
      snd (get_objective_func_name pt name) =
        [Warning_unsupported_metric name
           (if pt = REGRESSION then ''mean_squared_error'' else ''log_loss'')]) \<and>
   (name \<in> set (map fst metrics_map) \<longrightarrow>
      snd (fst (get_objective_func_name pt name)) = name \<and>
      snd (get_objective_func_name pt name) = [])"
  using get_objective_func_name_unsupported get_objective_func_name_supported by blast

theorem get_objective_func_name_fallback_witness:
  "get_objective_func_name REGRESSION ''pac_score''
     = ((Some Mse, ''mean_squared_error''),
        [Warning_unsupported_metric ''pac_score'' ''mean_squared_error'']) \<and>
   get_objective_func_name BINARY ''pac_score''
     = ((None, ''log_loss''), [Warning_unsupported_metric ''pac_score'' ''log_loss'']) \<and>
   get_objective_func_name MULTICLASS ''accuracy'' = ((Some Accuracy, ''accuracy''), [])"
proof -
  have k1: "''pac_score'' \<notin> set (map fst metrics_map)"
    by (simp add: metrics_map_keys)
  have k2: "''accuracy'' \<in> set (map fst metrics_map)"
    by (simp add: metrics_map_keys)
  have m1: "fst (fst (get_objective_func_name REGRESSION ''pac_score'')) = Some Mse"
    by (simp add: get_objective_func_name_def Let_def metrics_map_def)
  have m2: "fst (fst (get_objective_func_name BINARY ''pac_score'')) = None"
    by (simp add: get_objective_func_name_def Let_def metrics_map_def)
  have m3: "fst (fst (get_objective_func_name MULTICLASS ''accuracy'')) = Some Accuracy"
    by (simp add: get_objective_func_name_def Let_def metrics_map_def)
  show ?thesis
    using get_objective_func_name_fallback [of "''pac_score''" REGRESSION]
          get_objective_func_name_fallback [of "''pac_score''" BINARY]
          get_objective_func_name_fallback [of "''accuracy''" MULTICLASS]
          k1 k2 m1 m2 m3
    by (simp add: prod_eq_iff)
qed


subsection \<open>Dataset assembler\<close>

lemma index_len_setitem: "index_len (setitem df c col) = index_len df"
  by (simp add: setitem_def)

lemma index_len_setitem_series: "index_len (setitem_series df c ys) = index_len df"
  by (simp add: setitem_series_def index_len_setitem)

lemma index_len_pd_concat:
  "index_len (pd_concat a b) = index_len a + (case b of None \<Rightarrow> 0 | Some b' \<Rightarrow> index_len b')"
  by (simp add: pd_concat_def split: option.splits)

lemma arange_shift: "map (\<lambda>i. i + n) [0..<m] = [n..<n + m]"
  by (simp add: map_add_upt add.commute)

lemma upt_small: "[0..<1] = [0]" "[0..<2] = [0, 1]" "[0..<3] = [0, 1, 2]" "[0..<4] = [0, 1, 2, 3]"
  by (simp_all add: upt_rec)

text \<open>
  C3: with a validation set supplied, the train indices are exactly \<open>[0, n_train)\<close>, the
  validation indices exactly \<open>[n_train, n_train + n_val)\<close>; the two are disjoint and their
  sizes sum to the number of rows of the assembled frame.
\<close>

theorem generate_datasets_with_validation:
  "generate_datasets X y (Some Xv) yv = (df, train_idx, val_idx) \<Longrightarrow>
     train_idx = [0..<index_len X] \<and>
     val_idx = [index_len X..<index_len X + index_len Xv] \<and>
     set train_idx \<inter> set val_idx = {} \<and>
     length train_idx + length val_idx = index_len df"
  by (auto simp: generate_datasets_def Let_def arange_shift index_len_setitem_series index_len_pd_concat)

theorem generate_datasets_with_validation_witness:
  "generate_datasets ex_X ex_y (Some ex_X_val) (Some ex_y_val) =
     (\<lparr>index_len = 3,
       columns = [(''color'', Categorical [Str ''red'', Str ''blue''] [Some (Str ''red''), None, Some (Str ''blue'')]),
                  (''size'', Series [Some (Num 1), None, Some (Num 5)]),
                  (''__label__'', Series [Some (Num 0), Some (Num 1), Some (Num 1)])]\<rparr>,
      [0, 1], [2]) \<and>
   [0, 1] = [0..<index_len ex_X] \<and>
   [2] = [index_len ex_X..<index_len ex_X + index_len ex_X_val] \<and>
   set [0, 1 :: nat] \<inter> set [2] = {}"
proof -
  have g: "generate_datasets ex_X ex_y (Some ex_X_val) (Some ex_y_val) =
     (\<lparr>index_len = 3,
       columns = [(''color'', Categorical [Str ''red'', Str ''blue''] [Some (Str ''red''), None, Some (Str ''blue'')]),
                  (''size'', Series [Some (Num 1), None, Some (Num 5)]),
                  (''__label__'', Series [Some (Num 0), Some (Num 1), Some (Num 1)])]\<rparr>,
      [0, 1], [2])"
    by (simp add: generate_datasets_def pd_concat_def column_names_def setitem_series_def setitem_def
        concat_series_def reindex_def LABEL_def ex_X_def ex_y_def ex_X_val_def ex_y_val_def upt_small)
  show ?thesis
    using g generate_datasets_with_validation [OF g] by blast
qed

lemma length_reindex: "length (reindex n ys) = n"
  by (simp add: reindex_def)

lemma rectangular_setitem:
  "rectangular df \<Longrightarrow> length (cells col) = index_len df \<Longrightarrow> rectangular (setitem df c col)"
  by (auto simp: rectangular_def setitem_def list_all_iff split: if_splits)

lemma rectangular_setitem_series: "rectangular df \<Longrightarrow> rectangular (setitem_series df c ys)"
  by (simp add: setitem_series_def rectangular_setitem length_reindex)

lemma columns_pd_concat_self:
  "columns (pd_concat d (Some d)) = map (\<lambda>(n, x). (n, concat_column x x)) (columns d)"
  by (simp add: pd_concat_def zip_same_conv_map case_prod_unfold)

lemma take_rows_first_copy:
  "length (cells x) = n \<Longrightarrow> take_rows [0..<n] (concat_column x x) = x"
  by (cases x) (auto simp: nth_append intro: nth_equalityI)

lemma take_rows_second_copy:
  "length (cells x) = n \<Longrightarrow> take_rows [n..<n + n] (concat_column x x) = x"
  by (cases x) (auto simp: nth_append intro: nth_equalityI)

lemma iloc_copies:
  assumes "rectangular d" and "n = index_len d"
  shows "iloc (pd_concat d (Some d)) [0..<n] = d"
    and "iloc (pd_concat d (Some d)) [n..<n + n] = d"
proof -
  have len: "\<And>c x. (c, x) \<in> set (columns d) \<Longrightarrow> length (cells x) = n"
    using assms by (auto simp: rectangular_def list_all_iff)
  have "map (\<lambda>(c, col). (c, take_rows [0..<n] col)) (map (\<lambda>(c, x). (c, concat_column x x)) (columns d))
      = columns d"
    using len by (auto simp: take_rows_first_copy intro!: map_idI)
  then show "iloc (pd_concat d (Some d)) [0..<n] = d"
    using assms(2) by (simp add: iloc_def columns_pd_concat_self index_len_pd_concat)
  have "map (\<lambda>(c, col). (c, take_rows [n..<n + n] col)) (map (\<lambda>(c, x). (c, concat_column x x)) (columns d))
      = columns d"
    using len by (auto simp: take_rows_second_copy intro!: map_idI)
  then show "iloc (pd_concat d (Some d)) [n..<n + n] = d"
    using assms(2) by (simp add: iloc_def columns_pd_concat_self index_len_pd_concat)
qed

text \<open>
  C4: with no validation set, the assembled frame has exactly \<open>2 * n\<close> rows; the train indices
  are \<open>[0, n)\<close> and the validation indices \<open>[n, 2n)\<close>, which are disjoint and together cover
  the frame; and the rows at the train indices and the rows at the validation indices are
  each the labelled train data, so the frame is two identical copies of it. (Reading rows back
  by position supposes that every column of the train frame has one cell per row.)
\<close>

theorem generate_datasets_refit:
  assumes "generate_datasets X y None yv = (df, train_idx, val_idx)"
  shows "index_len df = 2 * index_len X \<and>
         train_idx = [0..<index_len X] \<and>
         val_idx = [index_len X..<2 * index_len X] \<and>
         set train_idx \<inter> set val_idx = {} \<and>
         set train_idx \<union> set val_idx = {0..<index_len df} \<and>
         length train_idx = length val_idx \<and>
         (rectangular X \<longrightarrow>
            iloc df train_idx = setitem_series X LABEL (concat_series y yv) \<and>
            iloc df val_idx = setitem_series X LABEL (concat_series y yv))"
proof -
  let ?d = "setitem_series X LABEL (concat_series y yv)"
  let ?n = "index_len X"
  have df: "df = pd_concat ?d (Some ?d)" and tr: "train_idx = [0..<?n]"
    and va: "val_idx = [?n..<?n + ?n]"
    using assms
    by (auto simp: generate_datasets_def Let_def arange_shift pd_concat_def [of X None])
  have n: "index_len ?d = ?n" by (simp add: index_len_setitem_series)
  have len: "index_len df = 2 * ?n" by (simp add: df index_len_pd_concat n)
  have copies: "rectangular X \<longrightarrow> iloc df train_idx = ?d \<and> iloc df val_idx = ?d"
    using iloc_copies [of ?d ?n] by (simp add: df tr va rectangular_setitem_series n)
  have va2: "val_idx = [?n..<2 * ?n]" using va by (simp add: mult_2)
  have disj: "set train_idx \<inter> set val_idx = {}" by (auto simp: tr va)
  have cover: "set train_idx \<union> set val_idx = {0..<index_len df}" by (auto simp: tr va len)
  have same: "length train_idx = length val_idx" by (simp add: tr va)
  from tr va2 len copies disj cover same show ?thesis by blast
qed

theorem generate_datasets_refit_witness:
  "generate_datasets ex_X ex_y None None =
     (\<lparr>index_len = 4,
       columns = [(''color'', Categorical [Str ''red'', Str ''blue''] [Some (Str ''red''), None, Some (Str ''red''), None]),
                  (''size'', Series [Some (Num 1), None, Some (Num 1), None]),
                  (''__label__'', Series [Some (Num 0), Some (Num 1), Some (Num 0), Some (Num 1)])]\<rparr>,
      [0, 1], [2, 3]) \<and>
   rectangular ex_X \<and>
   [2, 3] = [index_len ex_X..<2 * index_len ex_X] \<and>
   set [0, 1 :: nat] \<inter> set [2, 3] = {} \<and>
   iloc \<lparr>index_len = 4,
       columns = [(''color'', Categorical [Str ''red'', Str ''blue''] [Some (Str ''red''), None, Some (Str ''red''), None]),
                  (''size'', Series [Some (Num 1), None, Some (Num 1), None]),
                  (''__label__'', Series [Some (Num 0), Some (Num 1), Some (Num 0), Some (Num 1)])]\<rparr> [2, 3]
     = setitem_series ex_X LABEL (concat_series ex_y None)"
proof -
  have g: "generate_datasets ex_X ex_y None None =
     (\<lparr>index_len = 4,
       columns = [(''color'', Categorical [Str ''red'', Str ''blue''] [Some (Str ''red''), None, Some (Str ''red''), None]),
                  (''size'', Series [Some (Num 1), None, Some (Num 1), None]),
                  (''__label__'', Series [Some (Num 0), Some (Num 1), Some (Num 0), Some (Num 1)])]\<rparr>,
      [0, 1], [2, 3])"
    by (simp add: generate_datasets_def pd_concat_def column_names_def setitem_series_def setitem_def
        concat_series_def reindex_def LABEL_def ex_X_def ex_y_def upt_small)
  have r: "rectangular ex_X"
    by (simp add: rectangular_def ex_X_def)
  show ?thesis
    using g r generate_datasets_refit [OF g] by blast
qed

subsection \<open>Failure propagation and loops\<close>

lemma bind_Inl: "bind (Inl e) f = Inl e"
  by (simp add: bind_def)

lemma bind_Inr: "bind (Inr v) f = f v"
  by (simp add: bind_def)

lemma bind_Inr_iff: "bind r f = Inr v \<longleftrightarrow> (\<exists>u. r = Inr u \<and> f u = Inr v)"
  by (cases r) (simp_all add: bind_def)

lemma for_each_invariant:
  assumes "for_each body xs s = Inr s'" and "P s"
    and "\<And>x t t'. x \<in> set xs \<Longrightarrow> body x t = Inr t' \<Longrightarrow> P t \<Longrightarrow> P t'"
  shows "P s'"
  using assms
proof (induction xs arbitrary: s)
  case Nil
  then show ?case by simp
next
  case (Cons x xs)
  from Cons.prems(1) obtain t where t: "body x s = Inr t" and rest: "for_each body xs t = Inr s'"
    by (auto split: sum.splits)
  have "P t" using Cons.prems(3) [of x s t] t Cons.prems(2) by simp
  show ?case
  proof (rule Cons.IH [OF rest \<open>P t\<close>])
    fix y u u' assume "y \<in> set xs" "body y u = Inr u'" "P u"
    then show "P u'" using Cons.prems(3) [of y u u'] by simp
  qed
qed

subsection \<open>Column selection and assignment\<close>

lemma map_of_Some_name: "map_of cols c = Some col \<Longrightarrow> c \<in> fst ` set cols"
  by (force dest: map_of_SomeD)

lemma select_columns_names: "select_columns cols cs = Inr out \<Longrightarrow> map fst out = cs"
proof (induction cs arbitrary: out)
  case Nil
  then show ?case by simp
next
  case (Cons c cs)
  from Cons.prems obtain col rest where "select_columns cols cs = Inr rest" "out = (c, col) # rest"
    by (auto split: option.splits sum.splits)
  then show ?case using Cons.IH by simp
qed




lemma getitem_Inr_name: "getitem df c = Inr col \<Longrightarrow> c \<in> set (column_names df)"
  by (auto simp: getitem_def column_names_def split: option.splits dest: map_of_Some_name)

lemma column_names_setitem:
  "c \<in> set (column_names df) \<Longrightarrow> column_names (setitem df c col) = column_names df"
  by (auto simp: setitem_def column_names_def)

subsection \<open>Shape of the imputer's output\<close>

lemma fill_cat_column_shape:
  assumes "fill_cat_column fills c df = Inr df'"
  shows "column_names df' = column_names df \<and> index_len df' = index_len df"
proof -
  from assms obtain col where "getitem df c = Inr col"
    by (auto simp: fill_cat_column_def bind_Inr_iff)
  then have c: "c \<in> set (column_names df)" by (rule getitem_Inr_name)
  from assms show ?thesis
    by (auto simp: fill_cat_column_def bind_Inr_iff Let_def column_names_setitem c index_len_setitem)
qed

lemma fill_cont_column_shape:
  assumes "fill_cont_column fills c df = Inr df'"
  shows "column_names df' = column_names df \<and> index_len df' = index_len df"
proof -
  from assms obtain col where "getitem df c = Inr col"
    by (auto simp: fill_cont_column_def bind_Inr_iff)
  then have c: "c \<in> set (column_names df)" by (rule getitem_Inr_name)
  from assms show ?thesis
    by (auto simp: fill_cont_column_def bind_Inr_iff column_names_setitem c index_len_setitem)
qed

lemma getitem_list_shape:
  "getitem_list df cs = Inr df0 \<Longrightarrow> column_names df0 = cs \<and> index_len df0 = index_len df"
  by (auto simp: getitem_list_def bind_Inr_iff column_names_def select_columns_names)

lemma fill_missing_shape:
  assumes "fill_missing self df = Inr out"
  shows "column_names out = inner_features self \<and> index_len out = index_len df"
proof -
  let ?P = "\<lambda>t. column_names t = inner_features self \<and> index_len t = index_len df"
  from assms obtain df0 df1 where
    s0: "getitem_list df (inner_features self) = Inr df0" and
    s1: "for_each (fill_cat_column (columns_fills self)) (cat_columns self) df0 = Inr df1" and
    s2: "for_each (fill_cont_column (columns_fills self)) (cont_columns self) df1 = Inr out"
    by (auto simp: fill_missing_def bind_Inr_iff)
  have p0: "?P df0" using getitem_list_shape [OF s0] by simp
  have p1: "?P df1"
    by (rule for_each_invariant [where P = ?P, OF s1 p0]) (auto dest: fill_cat_column_shape)
  show "?P out"
    by (rule for_each_invariant [where P = ?P, OF s2 p1]) (auto dest: fill_cont_column_shape)
qed




lemmas frame_eval =
  fill_missing_def getitem_list_def bind_def fill_cat_column_def fill_cont_column_def
  getitem_def setitem_def dict_getitem_def column_names_def fill_cell_def MISSING_def

lemma ex_fit: "preprocess ex_env ex_init ex_X True = (ex_fitted, Inr ex_filled)"
  by (simp add: preprocess_def cat_cols_to_drop_def frame_eval Let_def ex_env_def ex_init_def ex_X_def
      ex_fitted_def ex_filled_def)


lemma ex_fill_incomplete: "fill_missing ex_fitted ex_incomplete = Inl (KeyError ''size'')"
  by (simp add: frame_eval ex_fitted_def ex_init_def ex_incomplete_def)

lemma ex_fill_twice:
  "fill_missing ex_fitted ex_filled = Inl (ValueError ''new categories must not include old categories'')"
  by (simp add: frame_eval ex_fitted_def ex_init_def ex_filled_def)





lemma cat_cols_to_drop_failure:
  "describe_unique env X = Inl e \<Longrightarrow> cat_cols_to_drop env ps X = []"
  by (simp add: cat_cols_to_drop_def)

lemma cat_cols_to_drop_no_stats:
  "cat_cols_to_drop (env\<lparr>describe_unique := \<lambda>X. Inr []\<rparr>) ps X = []"
  by (simp add: cat_cols_to_drop_def)

lemma cat_columns_preprocess_fit:
  assumes "base_preprocess env X0 = Inr X"
  shows "cat_columns (fst (preprocess env self X0 True)) =
     filter (\<lambda>c. c \<in> set (column_names X) \<and> c \<notin> set (cat_cols_to_drop env (params self) X)) (features_cat env)"
proof -
  let ?keep = "filter (\<lambda>col. col \<notin> set (cat_cols_to_drop env (params self) X)) (column_names X)"
  let ?cats = "filter (\<lambda>feature. feature \<in> set (column_names X))
                 (filter (\<lambda>col. col \<in> set ?keep) (features_cat env))"
  have "cat_columns (fst (preprocess env self X0 True)) = ?cats"
    using assms by (simp add: preprocess_def Let_def split: prod.splits option.splits)
  also have "?cats = filter (\<lambda>c. c \<in> set (column_names X) \<and>
                 c \<notin> set (cat_cols_to_drop env (params self) X)) (features_cat env)"
    by (auto intro: filter_cong)
  finally show ?thesis .
qed

text \<open>
  C8: when computing the statistics on the frame raises (any exception \<open>e\<close>), the list of
  columns to drop for their cardinality is empty, the fit call behaves exactly as it does
  with an empty statistics table (so the exception \<open>e\<close> does not reach the caller), and the
  categorical columns kept are all declared categorical features present in the frame.
\<close>

theorem describe_failure_drops_nothing:
  assumes "base_preprocess env X0 = Inr X" and "describe_unique env X = Inl e"
  shows "cat_cols_to_drop env (params self) X = [] \<and>
         preprocess env self X0 True = preprocess (env\<lparr>describe_unique := \<lambda>X. Inr []\<rparr>) self X0 True \<and>
         cat_columns (fst (preprocess env self X0 True)) =
           filter (\<lambda>c. c \<in> set (column_names X)) (features_cat env)"
proof -
  have d: "cat_cols_to_drop env (params self) X = []"
    using assms(2) by (rule cat_cols_to_drop_failure)
  have same: "preprocess env self X0 True = preprocess (env\<lparr>describe_unique := \<lambda>X. Inr []\<rparr>) self X0 True"
    by (simp add: preprocess_def d cat_cols_to_drop_no_stats assms(1))
  have cats: "cat_columns (fst (preprocess env self X0 True)) =
           filter (\<lambda>c. c \<in> set (column_names X)) (features_cat env)"
    by (simp add: cat_columns_preprocess_fit [OF assms(1)] d)
  from d same cats show ?thesis by (intro conjI)
qed

theorem describe_failure_drops_nothing_witness:
  "describe_unique ex_env_no_stats ex_X = Inl (KeyError ''unique'') \<and>
   preprocess ex_env_no_stats ex_init ex_X True = (ex_fitted, Inr ex_filled) \<and>
   cat_cols_to_drop ex_env_no_stats (params ex_init) ex_X = [] \<and>
   preprocess (ex_env_no_stats\<lparr>describe_unique := \<lambda>X. Inr []\<rparr>) ex_init ex_X True
     = (ex_fitted, Inr ex_filled) \<and>
   cat_columns ex_fitted = filter (\<lambda>c. c \<in> set (column_names ex_X)) (features_cat ex_env_no_stats)"
proof -
  have b: "base_preprocess ex_env_no_stats ex_X = Inr ex_X"
    by (simp add: ex_env_no_stats_def ex_env_def)
  have f: "describe_unique ex_env_no_stats ex_X = Inl (KeyError ''unique'')"
    by (simp add: ex_env_no_stats_def)
  have run: "preprocess ex_env_no_stats ex_init ex_X True = (ex_fitted, Inr ex_filled)"
    by (simp add: preprocess_def cat_cols_to_drop_def frame_eval Let_def ex_env_no_stats_def
        ex_env_def ex_init_def ex_X_def ex_fitted_def ex_filled_def)
  note t = describe_failure_drops_nothing [OF b f, of ex_init]
  have d: "cat_cols_to_drop ex_env_no_stats (params ex_init) ex_X = []"
    using t by blast
  have same: "preprocess (ex_env_no_stats\<lparr>describe_unique := \<lambda>X. Inr []\<rparr>) ex_init ex_X True
     = (ex_fitted, Inr ex_filled)"
    using t run by simp
  have cats: "cat_columns ex_fitted = filter (\<lambda>c. c \<in> set (column_names ex_X)) (features_cat ex_env_no_stats)"
    using t run by simp
  from f run d same cats show ?thesis by (intro conjI)
qed

subsection \<open>Reading a column back after an assignment\<close>

lemma map_of_update_other:
  "c' \<noteq> c \<Longrightarrow>
     map_of (map (\<lambda>(n, x). if n = c then (n, col) else (n, x)) cols) c' = map_of cols c'"
  by (induction cols) auto

lemma map_of_update_same:
  "c \<in> fst ` set cols \<Longrightarrow>
     map_of (map (\<lambda>(n, x). if n = c then (n, col) else (n, x)) cols) c = Some col"
  by (induction cols) auto

lemma setitem_existing:
  "c \<in> set (column_names df) \<Longrightarrow>
     setitem df c col = df\<lparr>columns := map (\<lambda>(n, x). if n = c then (n, col) else (n, x)) (columns df)\<rparr>"
  by (simp add: setitem_def)

lemma map_of_setitem:
  "c \<in> set (column_names df) \<Longrightarrow>
     map_of (columns (setitem df c col)) c' = (if c' = c then Some col else map_of (columns df) c')"
  by (simp add: setitem_existing column_names_def map_of_update_other map_of_update_same)

lemma getitem_setitem:
  "c \<in> set (column_names df) \<Longrightarrow>
     getitem (setitem df c col) c' = (if c' = c then Inr col else getitem df c')"
  by (simp add: getitem_def map_of_setitem)

lemma setitem_idem:
  assumes "c \<in> set (column_names df)"
  shows "setitem (setitem df c col) c col = setitem df c col"
proof -
  have "c \<in> set (column_names (setitem df c col))"
    using assms by (simp add: column_names_setitem)
  then show ?thesis
    by (simp add: setitem_existing assms case_prod_unfold)
qed

lemma setitem_commute:
  assumes "x \<noteq> y" and "x \<in> set (column_names df)" and "y \<in> set (column_names df)"
  shows "setitem (setitem df y a) x b = setitem (setitem df x b) y a"
proof -
  have "x \<in> set (column_names (setitem df y a))" "y \<in> set (column_names (setitem df x b))"
    using assms by (simp_all add: column_names_setitem)
  then show ?thesis
    using assms(1) by (simp add: setitem_existing assms(2,3) case_prod_unfold)
qed

lemma fillna_idem:
  assumes "fillna col v = Inr col1"
  shows "fillna col1 v = Inr col1"
proof (cases col)
  case (Categorical cats xs)
  with assms show ?thesis
    by (cases v) (auto simp: fill_cell_def split: if_splits option.splits)
next
  case (Series xs)
  with assms show ?thesis
    by (auto simp: fill_cell_def split: option.splits)
qed

lemma fillna_categories:
  "fillna (Categorical cats xs) v = Inr col \<Longrightarrow> \<exists>xs'. col = Categorical cats xs'"
  by (cases v) (auto split: if_splits)

subsection \<open>Loops whose steps are idempotent\<close>

lemma for_each_fixed:
  "(\<And>x. x \<in> set xs \<Longrightarrow> body x s = Inr s) \<Longrightarrow> for_each body xs s = Inr s"
  by (induction xs) simp_all

lemma for_each_reaches_fixed_point:
  assumes run: "for_each body xs s = Inr s'"
    and idem: "\<And>x t t'. body x t = Inr t' \<Longrightarrow> body x t' = Inr t'"
    and pres: "\<And>x y t t'. body y t = Inr t' \<Longrightarrow> body x t = Inr t \<Longrightarrow> body x t' = Inr t'"
  shows "x \<in> set xs \<Longrightarrow> body x s' = Inr s'"
  using run
proof (induction xs arbitrary: s)
  case Nil
  then show ?case by simp
next
  case (Cons a xs)
  from Cons.prems(2) obtain t where t: "body a s = Inr t" and rest: "for_each body xs t = Inr s'"
    by (auto split: sum.splits)
  show ?case
  proof (cases "x \<in> set xs")
    case True
    then show ?thesis using Cons.IH [OF _ rest] by simp
  next
    case False
    with Cons.prems(1) have "x = a" by simp
    have "body a t = Inr t" using t by (rule idem)
    have "body a s' = Inr s'"
      by (rule for_each_invariant [where P = "\<lambda>u. body a u = Inr u", OF rest \<open>body a t = Inr t\<close>])
         (rule pres)
    with \<open>x = a\<close> show ?thesis by simp
  qed
qed

subsection \<open>The continuous loop is idempotent\<close>

lemma fill_cont_column_idem:
  assumes "fill_cont_column fills c t = Inr t'"
  shows "fill_cont_column fills c t' = Inr t'"
proof -
  from assms obtain col v col1 where
    g: "getitem t c = Inr col" and d: "dict_getitem fills c = Inr v" and
    f: "fillna col v = Inr col1" and t': "t' = setitem t c col1"
    by (auto simp: fill_cont_column_def bind_Inr_iff)
  have c: "c \<in> set (column_names t)" using g by (rule getitem_Inr_name)
  have "getitem t' c = Inr col1" by (simp add: t' getitem_setitem c)
  moreover have "fillna col1 v = Inr col1" using f by (rule fillna_idem)
  moreover have "setitem t' c col1 = t'" by (simp add: t' setitem_idem c)
  ultimately show ?thesis
    by (simp add: fill_cont_column_def d bind_Inr)
qed

lemma fill_cont_column_preserves_fixed:
  assumes y: "fill_cont_column fills y t = Inr t'" and x: "fill_cont_column fills x t = Inr t"
  shows "fill_cont_column fills x t' = Inr t'"
proof (cases "x = y")
  case True
  with x y show ?thesis by simp
next
  case False
  from y obtain coly vy cy where
    gy: "getitem t y = Inr coly" and t': "t' = setitem t y cy"
    by (auto simp: fill_cont_column_def bind_Inr_iff)
  from x obtain col v col1 where
    g: "getitem t x = Inr col" and d: "dict_getitem fills x = Inr v" and
    f: "fillna col v = Inr col1" and fixd: "setitem t x col1 = t"
    by (auto simp: fill_cont_column_def bind_Inr_iff)
  have yn: "y \<in> set (column_names t)" using gy by (rule getitem_Inr_name)
  have xn: "x \<in> set (column_names t)" using g by (rule getitem_Inr_name)
  have "getitem t' x = Inr col" using False by (simp add: t' getitem_setitem yn g)
  moreover have "setitem t' x col1 = t'"
    using setitem_commute [OF False xn yn, of cy col1] by (simp add: t' fixd)
  ultimately show ?thesis
    by (simp add: fill_cont_column_def d f bind_Inr)
qed

lemma cont_loop_idem:
  assumes "for_each (fill_cont_column fills) cs t = Inr out"
  shows "for_each (fill_cont_column fills) cs out = Inr out"
proof (rule for_each_fixed)
  fix x assume "x \<in> set cs"
  show "fill_cont_column fills x out = Inr out"
  proof (rule for_each_reaches_fixed_point [OF assms])
    fix z t t' assume "fill_cont_column fills z t = Inr t'"
    then show "fill_cont_column fills z t' = Inr t'" by (rule fill_cont_column_idem)
  next
    fix z y t t' assume "fill_cont_column fills y t = Inr t'" "fill_cont_column fills z t = Inr t"
    then show "fill_cont_column fills z t' = Inr t'" by (rule fill_cont_column_preserves_fixed)
  next
    show "x \<in> set cs" by fact
  qed
qed

subsection \<open>Selecting the schema columns from the imputer's own output\<close>

lemma select_columns_all_aux:
  "list_all (\<lambda>(n, x). map_of cols n = Some x) cols' \<Longrightarrow>
     select_columns cols (map fst cols') = Inr cols'"
  by (induction cols') auto

lemma select_columns_all:
  "first_entries cols \<Longrightarrow> select_columns cols (map fst cols) = Inr cols"
  by (simp add: first_entries_def select_columns_all_aux)

lemma select_columns_lookup:
  "select_columns cols cs = Inr sel \<Longrightarrow> c \<in> set cs \<Longrightarrow> map_of sel c = map_of cols c"
proof (induction cs arbitrary: sel)
  case Nil
  then show ?case by simp
next
  case (Cons a cs)
  from Cons.prems(1) obtain col rest where
    a: "map_of cols a = Some col" and r: "select_columns cols cs = Inr rest" and
    sel: "sel = (a, col) # rest"
    by (auto split: option.splits sum.splits)
  show ?case
  proof (cases "c = a")
    case True
    then show ?thesis by (simp add: sel a)
  next
    case False
    with Cons.prems(2) have "c \<in> set cs" by simp
    with Cons.IH [OF r] False show ?thesis by (simp add: sel)
  qed
qed

lemma select_columns_first_entries:
  assumes "select_columns cols cs = Inr sel"
  shows "first_entries sel"
proof -
  have names: "map fst sel = cs" using assms by (rule select_columns_names)
  have "\<And>n x. (n, x) \<in> set sel \<Longrightarrow> map_of sel n = Some x"
  proof -
    fix n x assume nx: "(n, x) \<in> set sel"
    then have n: "n \<in> set cs" using names by force
    have "\<And>out. select_columns cols cs = Inr out \<Longrightarrow> (n, x) \<in> set out \<Longrightarrow> map_of cols n = Some x"
    proof (induction cs)
      case Nil
      then show ?case by simp
    next
      case (Cons a cs)
      then show ?case by (auto split: option.splits sum.splits)
    qed
    from this [OF assms nx] have "map_of cols n = Some x" .
    with select_columns_lookup [OF assms n] show "map_of sel n = Some x" by simp
  qed
  then show ?thesis by (auto simp: first_entries_def list_all_iff)
qed

lemma first_entries_setitem:
  assumes "first_entries (columns df)" and "c \<in> set (column_names df)"
  shows "first_entries (columns (setitem df c col))"
proof -
  have "\<And>n x. (n, x) \<in> set (columns (setitem df c col)) \<Longrightarrow>
          map_of (columns (setitem df c col)) n = Some x"
  proof -
    fix n x assume "(n, x) \<in> set (columns (setitem df c col))"
    then obtain x0 where old: "(n, x0) \<in> set (columns df)" and x: "x = (if n = c then col else x0)"
      by (auto simp: setitem_existing assms(2) split: if_splits)
    from old assms(1) have "map_of (columns df) n = Some x0"
      by (auto simp: first_entries_def list_all_iff)
    then show "map_of (columns (setitem df c col)) n = Some x"
      by (simp add: map_of_setitem assms(2) x)
  qed
  then show ?thesis by (auto simp: first_entries_def list_all_iff)
qed

lemma fill_cont_column_first_entries:
  assumes "fill_cont_column fills c t = Inr t'" and "first_entries (columns t)"
  shows "first_entries (columns t')"
proof -
  from assms(1) obtain col col1 where g: "getitem t c = Inr col" and t': "t' = setitem t c col1"
    by (auto simp: fill_cont_column_def bind_Inr_iff)
  have "c \<in> set (column_names t)" using g by (rule getitem_Inr_name)
  then show ?thesis by (simp add: t' first_entries_setitem assms(2))
qed

lemma getitem_list_own_columns:
  "first_entries (columns df) \<Longrightarrow> getitem_list df (column_names df) = Inr df"
  by (simp add: getitem_list_def column_names_def select_columns_all bind_Inr)

lemma fill_missing_idem_no_categorical:
  assumes "cat_columns self = []" and "fill_missing self df = Inr out"
  shows "fill_missing self out = Inr out"
proof -
  from assms obtain df0 where
    s0: "getitem_list df (inner_features self) = Inr df0" and
    s2: "for_each (fill_cont_column (columns_fills self)) (cont_columns self) df0 = Inr out"
    by (auto simp: fill_missing_def bind_Inr_iff)
  from s0 obtain sel where sel: "select_columns (columns df) (inner_features self) = Inr sel"
    and df0: "df0 = df\<lparr>columns := sel\<rparr>"
    by (auto simp: getitem_list_def bind_Inr_iff)
  have "first_entries (columns df0)"
    using select_columns_first_entries [OF sel] by (simp add: df0)
  then have fe: "first_entries (columns out)"
    by (rule for_each_invariant [where P = "\<lambda>t. first_entries (columns t)", OF s2])
       (rule fill_cont_column_first_entries)
  have names: "column_names out = inner_features self"
    using fill_missing_shape [OF assms(2)] by simp
  have "getitem_list out (inner_features self) = Inr out"
    using getitem_list_own_columns [OF fe] by (simp add: names)
  moreover have "for_each (fill_cont_column (columns_fills self)) (cont_columns self) out = Inr out"
    using s2 by (rule cont_loop_idem)
  ultimately show ?thesis
    by (simp add: fill_missing_def assms(1) bind_Inr)
qed

subsection \<open>A categorical column keeps the sentinel category\<close>

lemma has_sentinel_iff:
  "has_sentinel df c \<longleftrightarrow>
     (\<exists>cats xs. map_of (columns df) c = Some (Categorical cats xs) \<and> Str MISSING \<in> set cats)"
  by (auto simp: has_sentinel_def split: option.splits column.splits)

lemma cat_add_categories_Inr:
  "cat_add_categories col v = Inr col1 \<Longrightarrow>
     \<exists>cats xs. col = Categorical cats xs \<and> v \<notin> set cats \<and> col1 = Categorical (cats @ [v]) xs"
  by (cases col) (auto split: if_splits)

lemma fill_cat_column_sets_sentinel:
  assumes "fill_cat_column fills c df = Inr t"
  shows "has_sentinel t c"
proof -
  from assms obtain col col1 col2 v col3 where
    g: "getitem df c = Inr col" and
    a: "cat_add_categories col (Str MISSING) = Inr col1" and
    g2: "getitem (setitem df c col1) c = Inr col2" and
    f: "fillna col2 v = Inr col3" and
    t: "t = setitem (setitem df c col1) c col3"
    by (auto simp: fill_cat_column_def bind_Inr_iff Let_def)
  have c: "c \<in> set (column_names df)" using g by (rule getitem_Inr_name)
  then have c1: "c \<in> set (column_names (setitem df c col1))" by (simp add: column_names_setitem)
  from a obtain cats xs where col1: "col1 = Categorical (cats @ [Str MISSING]) xs"
    using cat_add_categories_Inr by blast
  have "col2 = col1" using g2 by (simp add: getitem_setitem c)
  with f col1 obtain xs' where "col3 = Categorical (cats @ [Str MISSING]) xs'"
    using fillna_categories by blast
  then show ?thesis
    by (simp add: has_sentinel_iff t map_of_setitem c1)
qed

lemma fill_cat_column_fails_on_sentinel:
  assumes "has_sentinel df c"
  shows "fill_cat_column fills c df = Inl (ValueError ''new categories must not include old categories'')"
proof -
  from assms obtain cats xs where
    "map_of (columns df) c = Some (Categorical cats xs)" "Str MISSING \<in> set cats"
    by (auto simp: has_sentinel_iff)
  then show ?thesis
    by (simp add: fill_cat_column_def getitem_def bind_Inr bind_Inl)
qed

lemma fill_cat_column_keeps_sentinel:
  assumes "fill_cat_column fills c2 t = Inr t'" and "has_sentinel t c"
  shows "has_sentinel t' c"
proof (cases "c2 = c")
  case True
  with assms(1) show ?thesis by (simp add: fill_cat_column_sets_sentinel)
next
  case False
  from assms(1) obtain col col1 col3 where
    g: "getitem t c2 = Inr col" and
    t': "t' = setitem (setitem t c2 col1) c2 col3"
    by (auto simp: fill_cat_column_def bind_Inr_iff Let_def)
  have c: "c2 \<in> set (column_names t)" using g by (rule getitem_Inr_name)
  then have c1: "c2 \<in> set (column_names (setitem t c2 col1))" by (simp add: column_names_setitem)
  have "map_of (columns t') c = map_of (columns t) c"
    using False by (simp add: t' map_of_setitem c c1)
  with assms(2) show ?thesis by (simp add: has_sentinel_def)
qed

lemma fill_cont_column_keeps_sentinel:
  assumes "fill_cont_column fills c2 t = Inr t'" and "has_sentinel t c"
  shows "has_sentinel t' c"
proof -
  from assms(1) obtain col v col1 where
    g: "getitem t c2 = Inr col" and f: "fillna col v = Inr col1" and t': "t' = setitem t c2 col1"
    by (auto simp: fill_cont_column_def bind_Inr_iff)
  have c: "c2 \<in> set (column_names t)" using g by (rule getitem_Inr_name)
  show ?thesis
  proof (cases "c2 = c")
    case True
    from assms(2) obtain cats xs where
      m: "map_of (columns t) c = Some (Categorical cats xs)" and s: "Str MISSING \<in> set cats"
      by (auto simp: has_sentinel_iff)
    from g True m have "col = Categorical cats xs" by (simp add: getitem_def)
    with f obtain xs' where "col1 = Categorical cats xs'" using fillna_categories by blast
    moreover from True c have "c \<in> set (column_names t)" by simp
    ultimately show ?thesis using s True by (simp add: has_sentinel_iff t' map_of_setitem)
  next
    case False
    then have "map_of (columns t') c = map_of (columns t) c"
      by (simp add: t' map_of_setitem c)
    with assms(2) show ?thesis by (simp add: has_sentinel_def)
  qed
qed

lemma fill_missing_again_with_categorical:
  assumes cats: "cat_columns self = c # cs" and run: "fill_missing self df = Inr out"
  shows "fill_missing self out = Inl (ValueError ''new categories must not include old categories'')"
proof -
  let ?fills = "columns_fills self"
  from run obtain df0 df1 where
    s0: "getitem_list df (inner_features self) = Inr df0" and
    s1: "for_each (fill_cat_column ?fills) (c # cs) df0 = Inr df1" and
    s2: "for_each (fill_cont_column ?fills) (cont_columns self) df1 = Inr out"
    by (auto simp: fill_missing_def bind_Inr_iff cats)
  from s1 obtain t where t: "fill_cat_column ?fills c df0 = Inr t"
    and rest: "for_each (fill_cat_column ?fills) cs t = Inr df1"
    by (auto split: sum.splits)
  have "has_sentinel t c" using t by (rule fill_cat_column_sets_sentinel)
  then have "has_sentinel df1 c"
    by (rule for_each_invariant [where P = "\<lambda>u. has_sentinel u c", OF rest])
       (rule fill_cat_column_keeps_sentinel)
  then have out: "has_sentinel out c"
    by (rule for_each_invariant [where P = "\<lambda>u. has_sentinel u c", OF s2])
       (rule fill_cont_column_keeps_sentinel)
  have "c \<in> set (column_names df0)"
    using t by (auto simp: fill_cat_column_def bind_Inr_iff dest: getitem_Inr_name)
  then have c_inner: "c \<in> set (inner_features self)"
    using getitem_list_shape [OF s0] by simp
  have names: "column_names out = inner_features self"
    using fill_missing_shape [OF run] by simp
  have "\<exists>sel. select_columns (columns out) (inner_features self) = Inr sel"
  proof (rule ccontr)
    assume "\<not> ?thesis"
    then obtain e where e: "select_columns (columns out) (inner_features self) = Inl e"
      by (cases "select_columns (columns out) (inner_features self)") auto
    have "\<And>cols ks. select_columns cols ks = Inl e \<Longrightarrow> \<exists>k\<in>set ks. k \<notin> fst ` set cols"
    proof -
      fix cols :: "(string \<times> column) list" and ks
      show "select_columns cols ks = Inl e \<Longrightarrow> \<exists>k\<in>set ks. k \<notin> fst ` set cols"
        by (induction ks) (auto simp: map_of_eq_None_iff split: option.splits sum.splits)
    qed
    from this [OF e] obtain k where "k \<in> set (inner_features self)" "k \<notin> fst ` set (columns out)"
      by blast
    moreover have "set (inner_features self) = fst ` set (columns out)"
      using names by (simp add: column_names_def set_map [symmetric])
    ultimately show False by simp
  qed
  then obtain sel where sel: "select_columns (columns out) (inner_features self) = Inr sel"
    by blast
  have "map_of sel c = map_of (columns out) c"
    using sel c_inner by (rule select_columns_lookup)
  with out have "has_sentinel (out\<lparr>columns := sel\<rparr>) c"
    by (simp add: has_sentinel_def)
  then have "fill_cat_column ?fills c (out\<lparr>columns := sel\<rparr>) =
      Inl (ValueError ''new categories must not include old categories'')"
    by (rule fill_cat_column_fails_on_sentinel)
  then show ?thesis
    by (simp add: fill_missing_def getitem_list_def sel cats bind_Inr bind_Inl)
qed

subsection \<open>Applying the imputer twice\<close>

text \<open>
  C1, as stated: applying the imputer twice yields the same frame as applying it once. With
  the schema fitted on the example frame, which has a categorical column, the first
  application returns a frame and the second, on that frame, raises ValueError: the sentinel
  category is already there.
\<close>

theorem fill_missing_twice_counterexample:
  "preprocess ex_env ex_init ex_X True = (ex_fitted, Inr ex_filled) \<and>
   fill_missing ex_fitted ex_X = Inr ex_filled \<and>
   fill_missing ex_fitted ex_filled =
     Inl (ValueError ''new categories must not include old categories'')"
proof -
  have "fill_missing ex_fitted ex_X = Inr ex_filled"
    by (simp add: frame_eval ex_fitted_def ex_init_def ex_X_def ex_filled_def)
  with ex_fit ex_fill_twice show ?thesis by (intro conjI)
qed

text \<open>
  C1 (amended): whenever the imputer returns a frame, applying it to that frame returns the
  same frame if the schema has no categorical column, and raises ValueError (the sentinel
  category is already present) if it has one. The imputer is a function of the schema and
  the frame, so equal inputs give equal outputs, and a preprocessing call with
  \<open>fit = False\<close> leaves the object, and with it the fill values, unchanged.
\<close>

theorem fill_missing_twice:
  assumes "fill_missing self df = Inr out"
  shows "(cat_columns self = [] \<longrightarrow> fill_missing self out = Inr out) \<and>
         (cat_columns self \<noteq> [] \<longrightarrow>
            fill_missing self out =
              Inl (ValueError ''new categories must not include old categories'')) \<and>
         (\<forall>df'. df' = df \<longrightarrow> fill_missing self df' = Inr out) \<and>
         fst (preprocess env self X False) = self"
proof -
  have a: "cat_columns self = [] \<longrightarrow> fill_missing self out = Inr out"
    using assms by (simp add: fill_missing_idem_no_categorical)
  have b: "cat_columns self \<noteq> [] \<longrightarrow>
            fill_missing self out =
              Inl (ValueError ''new categories must not include old categories'')"
  proof
    assume "cat_columns self \<noteq> []"
    then obtain c cs where "cat_columns self = c # cs" by (cases "cat_columns self") auto
    then show "fill_missing self out =
              Inl (ValueError ''new categories must not include old categories'')"
      using assms by (rule fill_missing_again_with_categorical)
  qed
  have d: "\<forall>df'. df' = df \<longrightarrow> fill_missing self df' = Inr out"
    using assms by simp
  have c: "fst (preprocess env self X False) = self"
    by (simp add: preprocess_def split: sum.splits)
  from a b d c show ?thesis by (intro conjI)
qed

theorem fill_missing_twice_witness:
  "preprocess (ex_env\<lparr>features_cat := []\<rparr>) ex_init ex_X True = (ex_fitted_cont, Inr ex_filled_cont) \<and>
   fill_missing ex_fitted_cont ex_X = Inr ex_filled_cont \<and>
   cat_columns ex_fitted_cont = [] \<and>
   fill_missing ex_fitted_cont ex_filled_cont = Inr ex_filled_cont \<and>
   fill_missing ex_fitted ex_X = Inr ex_filled \<and>
   cat_columns ex_fitted \<noteq> [] \<and>
   fill_missing ex_fitted ex_filled =
     Inl (ValueError ''new categories must not include old categories'') \<and>
   fst (preprocess ex_env ex_fitted ex_new False) = ex_fitted"
proof -
  have fit0: "preprocess (ex_env\<lparr>features_cat := []\<rparr>) ex_init ex_X True = (ex_fitted_cont, Inr ex_filled_cont)"
    by (simp add: preprocess_def cat_cols_to_drop_def frame_eval Let_def ex_env_def ex_init_def ex_X_def
        ex_fitted_cont_def ex_filled_cont_def)
  have r0: "fill_missing ex_fitted_cont ex_X = Inr ex_filled_cont"
    by (simp add: frame_eval ex_fitted_cont_def ex_init_def ex_X_def ex_filled_cont_def)
  have c0: "cat_columns ex_fitted_cont = []"
    by (simp add: ex_fitted_cont_def ex_init_def)
  have r1: "fill_missing ex_fitted ex_X = Inr ex_filled"
    by (simp add: frame_eval ex_fitted_def ex_init_def ex_X_def ex_filled_def)
  have c1: "cat_columns ex_fitted \<noteq> []"
    by (simp add: ex_fitted_def ex_init_def)
  note t0 = fill_missing_twice [OF r0, of ex_env ex_new]
  note t1 = fill_missing_twice [OF r1, of ex_env ex_new]
  have again0: "fill_missing ex_fitted_cont ex_filled_cont = Inr ex_filled_cont"
    using t0 c0 by blast
  have again1: "fill_missing ex_fitted ex_filled =
     Inl (ValueError ''new categories must not include old categories'')"
    using t1 c1 by blast
  have unchanged: "fst (preprocess ex_env ex_fitted ex_new False) = ex_fitted"
    using t1 by blast
  from fit0 r0 c0 again0 r1 c1 again1 unchanged show ?thesis by (intro conjI)
qed

subsection \<open>Duplicating the rows of a frame commutes with the imputer\<close>

lemma pd_concat_self:
  "pd_concat X (Some X) =
     \<lparr>index_len = index_len X + index_len X,
      columns = map (\<lambda>(n, x). (n, concat_column x x)) (columns X)\<rparr>"
  by (simp add: pd_concat_def zip_same_conv_map case_prod_unfold)

lemma column_names_pd_concat_self: "column_names (pd_concat X (Some X)) = column_names X"
  by (simp add: pd_concat_self column_names_def case_prod_unfold)

lemma map_of_doubled:
  "map_of (map (\<lambda>(n, x). (n, concat_column x x)) cols) c =
     map_option (\<lambda>x. concat_column x x) (map_of cols c)"
  by (induction cols) auto

lemma select_columns_doubled:
  "select_columns (map (\<lambda>(n, x). (n, concat_column x x)) cols) cs =
     map_sum id (map (\<lambda>(n, x). (n, concat_column x x))) (select_columns cols cs)"
proof (induction cs)
  case Nil
  then show ?case by simp
next
  case (Cons c cs)
  then show ?case
    by (cases "map_of cols c"; cases "select_columns cols cs") (simp_all add: map_of_doubled)
qed

lemma getitem_list_doubled:
  "getitem_list (pd_concat X (Some X)) cs =
     map_sum id (\<lambda>X'. pd_concat X' (Some X')) (getitem_list X cs)"
  by (cases "select_columns (columns X) cs")
     (simp_all add: getitem_list_def pd_concat_self select_columns_doubled bind_def)

lemma getitem_doubled:
  "getitem (pd_concat X (Some X)) c = map_sum id (\<lambda>x. concat_column x x) (getitem X c)"
  by (cases "map_of (columns X) c") (simp_all add: getitem_def pd_concat_self map_of_doubled)

lemma cat_add_categories_doubled:
  "cat_add_categories (concat_column x x) v = map_sum id (\<lambda>x. concat_column x x) (cat_add_categories x v)"
  by (cases x) simp_all

lemma fillna_doubled:
  "fillna (concat_column x x) v = map_sum id (\<lambda>x. concat_column x x) (fillna x v)"
proof (cases x)
  case (Categorical cats xs)
  then show ?thesis by (cases v) simp_all
next
  case (Series xs)
  then show ?thesis by simp
qed

lemma setitem_doubled:
  "setitem (pd_concat X (Some X)) c (concat_column col col) = pd_concat (setitem X c col) (Some (setitem X c col))"
proof (cases "c \<in> set (column_names X)")
  case True
  then have "c \<in> set (column_names (pd_concat X (Some X)))"
    by (simp add: column_names_pd_concat_self)
  with True show ?thesis
    by (simp add: setitem_def pd_concat_self [of "X\<lparr>columns := _\<rparr>"] case_prod_unfold)
       (simp add: pd_concat_self case_prod_unfold)
next
  case False
  then have "c \<notin> set (column_names (pd_concat X (Some X)))"
    by (simp add: column_names_pd_concat_self)
  with False show ?thesis
    by (simp add: setitem_def pd_concat_self [of "X\<lparr>columns := _\<rparr>"] case_prod_unfold)
       (simp add: pd_concat_self case_prod_unfold)
qed

lemma fill_cat_column_doubled:
  "fill_cat_column fills c (pd_concat X (Some X)) =
     map_sum id (\<lambda>X'. pd_concat X' (Some X')) (fill_cat_column fills c X)"
proof (cases "getitem X c")
  case (Inl e)
  then show ?thesis by (simp add: fill_cat_column_def getitem_doubled bind_Inl)
next
  case g: (Inr col)
  then have cn: "c \<in> set (column_names X)" by (rule getitem_Inr_name)
  show ?thesis
  proof (cases "cat_add_categories col (Str MISSING)")
    case (Inl e)
    with g show ?thesis
      by (simp add: fill_cat_column_def getitem_doubled cat_add_categories_doubled bind_Inl bind_Inr)
  next
    case a: (Inr col1)
    have g1: "getitem (setitem X c col1) c = Inr col1" by (simp add: getitem_setitem cn)
    show ?thesis
    proof (cases "dict_getitem fills c")
      case (Inl e)
      with g a g1 show ?thesis
        by (simp add: fill_cat_column_def getitem_doubled cat_add_categories_doubled
            setitem_doubled bind_Inl bind_Inr)
    next
      case d: (Inr v)
      show ?thesis
      proof (cases "fillna col1 v")
        case (Inl e)
        with g a g1 d show ?thesis
          by (simp add: fill_cat_column_def getitem_doubled cat_add_categories_doubled
              setitem_doubled fillna_doubled bind_Inl bind_Inr)
      next
        case (Inr col3)
        with g a g1 d show ?thesis
          by (simp add: fill_cat_column_def getitem_doubled cat_add_categories_doubled
              setitem_doubled fillna_doubled bind_Inl bind_Inr)
      qed
    qed
  qed
qed

lemma fill_cont_column_doubled:
  "fill_cont_column fills c (pd_concat X (Some X)) =
     map_sum id (\<lambda>X'. pd_concat X' (Some X')) (fill_cont_column fills c X)"
proof (cases "getitem X c")
  case (Inl e)
  then show ?thesis by (simp add: fill_cont_column_def getitem_doubled bind_Inl)
next
  case g: (Inr col)
  show ?thesis
  proof (cases "dict_getitem fills c")
    case (Inl e)
    with g show ?thesis by (simp add: fill_cont_column_def getitem_doubled bind_Inl bind_Inr)
  next
    case d: (Inr v)
    show ?thesis
    proof (cases "fillna col v")
      case (Inl e)
      with g d show ?thesis
        by (simp add: fill_cont_column_def getitem_doubled fillna_doubled bind_Inl bind_Inr)
    next
      case (Inr col1)
      with g d show ?thesis
        by (simp add: fill_cont_column_def getitem_doubled fillna_doubled setitem_doubled
            bind_Inl bind_Inr)
    qed
  qed
qed

lemma for_each_doubled:
  assumes "\<And>c X. body c (pd_concat X (Some X)) = map_sum id (\<lambda>X'. pd_concat X' (Some X')) (body c X)"
  shows "for_each body cs (pd_concat X (Some X)) =
           map_sum id (\<lambda>X'. pd_concat X' (Some X')) (for_each body cs X)"
proof (induction cs arbitrary: X)
  case Nil
  then show ?case by simp
next
  case (Cons c cs)
  show ?case
  proof (cases "body c X")
    case (Inl e)
    then show ?thesis by (simp add: assms)
  next
    case (Inr X')
    then show ?thesis by (simp add: assms Cons.IH)
  qed
qed

lemma fill_missing_doubled:
  "fill_missing self (pd_concat X (Some X)) =
     map_sum id (\<lambda>X'. pd_concat X' (Some X')) (fill_missing self X)"
proof (cases "getitem_list X (inner_features self)")
  case (Inl e)
  then show ?thesis by (simp add: fill_missing_def getitem_list_doubled bind_Inl)
next
  case s0: (Inr df0)
  show ?thesis
  proof (cases "for_each (fill_cat_column (columns_fills self)) (cat_columns self) df0")
    case (Inl e)
    with s0 show ?thesis
      by (simp add: fill_missing_def getitem_list_doubled bind_Inl bind_Inr
          for_each_doubled [of "fill_cat_column (columns_fills self)", OF fill_cat_column_doubled])
  next
    case (Inr df1)
    with s0 show ?thesis
      by (simp add: fill_missing_def getitem_list_doubled bind_Inl bind_Inr
          for_each_doubled [of "fill_cat_column (columns_fills self)", OF fill_cat_column_doubled]
          for_each_doubled [of "fill_cont_column (columns_fills self)", OF fill_cont_column_doubled])
  qed
qed

lemma flat_first_row:
  "single_column t \<Longrightarrow> reshape_flat (first_row t) = take 1 (reshape_flat t)"
  by (cases "trows t") (auto simp: single_column_def reshape_flat_def first_row_def)

lemma column_1_first_row:
  "column_1 (first_row t) = map_sum id (take 1) (column_1 t)"
  by (simp add: column_1_def first_row_def take_map)

lemma snd_preprocess_later:
  "snd (preprocess env self X0 False) = bind (base_preprocess env X0) (fill_missing self)"
  by (cases "base_preprocess env X0") (simp_all add: preprocess_def bind_def)

subsection \<open>Single-row prediction\<close>

text \<open>
  C6: for a one-row input, the prediction is exactly the first row of the prediction for
  that row duplicated into a two-row batch, whatever the problem type; failures are the same
  on both sides. What the class calls is supposed to treat rows independently: the base
  class's preprocessing commutes with duplicating the rows and keeps their number, the
  scaler's \<open>inverse_transform\<close> maps the first row of a tensor to the first row of its
  result and keeps one value per row, and for regression the network has one output per row
  (the regression block of line 108).
\<close>

theorem predict_proba_single_row:
  assumes single: "index_len X0 = 1"
    and base_dup: "\<And>X. base_preprocess env (pd_concat X (Some X)) =
                       map_sum id (\<lambda>X'. pd_concat X' (Some X')) (base_preprocess env X)"
    and base_len: "\<And>X X'. base_preprocess env X = Inr X' \<Longrightarrow> index_len X' = index_len X"
    and inv_row: "\<And>sc t. inverse_transform env sc (first_row t) = first_row (inverse_transform env sc t)"
    and inv_col: "\<And>sc t. single_column t \<Longrightarrow> single_column (inverse_transform env sc t)"
    and one_col: "\<And>m X. problem_type self = REGRESSION \<Longrightarrow> single_column (get_preds env m X)"
  shows "predict_proba env self X0 =
           map_sum id head_rows (predict_proba env self (pd_concat X0 (Some X0)))"
proof (cases "base_preprocess env X0")
  case (Inl e)
  then show ?thesis
    by (simp add: predict_proba_def snd_preprocess_later base_dup bind_Inl)
next
  case b: (Inr Xb)
  have lb: "index_len Xb = 1" using base_len [OF b] single by simp
  show ?thesis
  proof (cases "fill_missing self Xb")
    case (Inl e)
    with b show ?thesis
      by (simp add: predict_proba_def snd_preprocess_later base_dup fill_missing_doubled
          bind_Inl bind_Inr)
  next
    case f: (Inr X)
    have lx: "index_len X = 1" using fill_missing_shape [OF f] lb by simp
    have l2: "index_len (pd_concat X (Some X)) \<noteq> Suc 0"
      by (simp add: index_len_pd_concat lx)
    have pre1: "snd (preprocess env self X0 False) = Inr X"
      by (simp add: snd_preprocess_later b f bind_Inr)
    have pre2: "snd (preprocess env self (pd_concat X0 (Some X0)) False) = Inr (pd_concat X (Some X))"
      by (simp add: snd_preprocess_later base_dup b f fill_missing_doubled bind_Inr)
    show ?thesis
    proof (cases "model self")
      case None
      then show ?thesis
        by (simp add: predict_proba_def pre1 pre2 bind_Inr Let_def)
    next
      case m: (Some m)
      let ?P = "get_preds env m (pd_concat X (Some X))"
      show ?thesis
      proof (cases "problem_type self")
        case BINARY
        then show ?thesis
          by (cases "column_1 ?P")
             (simp_all add: predict_proba_def pre1 pre2 bind_Inr bind_Inl Let_def m lx l2
                column_1_first_row)
      next
        case MULTICLASS
        then show ?thesis
          by (simp add: predict_proba_def pre1 pre2 bind_Inr Let_def m lx l2)
      next
        case REGRESSION
        then have col: "single_column ?P" by (rule one_col)
        show ?thesis
        proof (cases "y_scaler self")
          case None
          with REGRESSION show ?thesis
            by (simp add: predict_proba_def pre1 pre2 bind_Inr Let_def m lx l2 flat_first_row col)
        next
          case (Some sc)
          have "single_column (inverse_transform env sc ?P)" using col by (rule inv_col)
          with REGRESSION Some show ?thesis
            by (simp add: predict_proba_def pre1 pre2 bind_Inr Let_def m lx l2 inv_row flat_first_row)
        qed
      qed
    qed
  qed
qed

lemma ex_inverse_transform_rows:
  "inverse_transform ex_env sc (first_row t) = first_row (inverse_transform ex_env sc t)"
  by (cases sc) (simp add: ex_env_def first_row_def take_map)

lemma ex_inverse_transform_columns:
  "single_column t \<Longrightarrow> single_column (inverse_transform ex_env sc t)"
  by (cases sc) (simp add: ex_env_def single_column_def list_all_iff)

lemma ex_two_rows_binary:
  "predict_proba ex_env ex_trained (pd_concat ex_new (Some ex_new)) = Inr (Array1 [3 / 4, 3 / 4])"
  by (simp add: predict_proba_def preprocess_def pd_concat_def frame_eval column_1_def Let_def
      ex_env_def ex_trained_def ex_fitted_def ex_init_def ex_new_def upt_small)

lemma ex_two_rows_regression:
  "predict_proba ex_env_regression ex_trained_regression (pd_concat ex_new (Some ex_new)) =
     Inr (Array1 [2, 2])"
  by (simp add: predict_proba_def preprocess_def pd_concat_def frame_eval reshape_flat_def Let_def
      ex_env_regression_def ex_trained_regression_def
      ex_env_def ex_trained_def ex_fitted_def ex_init_def ex_new_def upt_small)

theorem predict_proba_single_row_witness:
  "index_len ex_new = 1 \<and>
   predict_proba ex_env ex_trained (pd_concat ex_new (Some ex_new)) = Inr (Array1 [3 / 4, 3 / 4]) \<and>
   predict_proba ex_env ex_trained ex_new = Inr (Array1 [3 / 4]) \<and>
   predict_proba ex_env_regression ex_trained_regression (pd_concat ex_new (Some ex_new)) =
     Inr (Array1 [2, 2]) \<and>
   predict_proba ex_env_regression ex_trained_regression ex_new = Inr (Array1 [2])"
proof -
  have single: "index_len ex_new = 1"
    by (simp add: ex_new_def)
  have bin: "predict_proba ex_env ex_trained ex_new =
      map_sum id head_rows (predict_proba ex_env ex_trained (pd_concat ex_new (Some ex_new)))"
  proof (rule predict_proba_single_row [OF single])
    show "\<And>X. base_preprocess ex_env (pd_concat X (Some X)) =
             map_sum id (\<lambda>X'. pd_concat X' (Some X')) (base_preprocess ex_env X)"
      by (simp add: ex_env_def)
    show "\<And>X X'. base_preprocess ex_env X = Inr X' \<Longrightarrow> index_len X' = index_len X"
      by (simp add: ex_env_def)
    show "\<And>sc t. inverse_transform ex_env sc (first_row t) = first_row (inverse_transform ex_env sc t)"
      by (rule ex_inverse_transform_rows)
    show "\<And>sc t. single_column t \<Longrightarrow> single_column (inverse_transform ex_env sc t)"
      by (rule ex_inverse_transform_columns)
    show "\<And>m X. problem_type ex_trained = REGRESSION \<Longrightarrow> single_column (get_preds ex_env m X)"
      by (simp add: ex_trained_def ex_fitted_def ex_init_def)
  qed
  have reg: "predict_proba ex_env_regression ex_trained_regression ex_new =
      map_sum id head_rows
        (predict_proba ex_env_regression ex_trained_regression (pd_concat ex_new (Some ex_new)))"
  proof (rule predict_proba_single_row [OF single])
    show "\<And>X. base_preprocess ex_env_regression (pd_concat X (Some X)) =
             map_sum id (\<lambda>X'. pd_concat X' (Some X')) (base_preprocess ex_env_regression X)"
      by (simp add: ex_env_regression_def ex_env_def)
    show "\<And>X X'. base_preprocess ex_env_regression X = Inr X' \<Longrightarrow> index_len X' = index_len X"
      by (simp add: ex_env_regression_def ex_env_def)
    show "\<And>sc t. inverse_transform ex_env_regression sc (first_row t) =
             first_row (inverse_transform ex_env_regression sc t)"
      using ex_inverse_transform_rows by (simp add: ex_env_regression_def)
    show "\<And>sc t. single_column t \<Longrightarrow> single_column (inverse_transform ex_env_regression sc t)"
      using ex_inverse_transform_columns by (simp add: ex_env_regression_def)
    show "\<And>m X. problem_type ex_trained_regression = REGRESSION \<Longrightarrow>
             single_column (get_preds ex_env_regression m X)"
      by (simp add: ex_env_regression_def single_column_def list_all_iff)
  qed
  have b1: "predict_proba ex_env ex_trained ex_new = Inr (Array1 [3 / 4])"
    by (simp add: bin ex_two_rows_binary)
  have r1: "predict_proba ex_env_regression ex_trained_regression ex_new = Inr (Array1 [2])"
    by (simp add: reg ex_two_rows_regression)
  from single ex_two_rows_binary b1 ex_two_rows_regression r1 show ?thesis
    by (intro conjI)
qed

subsection \<open>Persistence\<close>

lemma path_final_unbound: "name_lookup (save_scope p) ''path_final'' = Inl (NameError ''path_final'')"
  by (simp add: name_lookup_def save_scope_def)

lemma save_with_model:
  "model self = Some m \<Longrightarrow>
   save env self files path_opt =
     ((self\<lparr>load_model := Some True\<rparr>,
       files @ [((case path_opt of None \<Rightarrow> path self | Some p \<Rightarrow> p) @ model_file_name,
                 Configuration (self\<lparr>model := None, load_model := Some True\<rparr>))]),
      Inl (NameError ''path_final''))"
  by (cases self) (simp add: save_def base_save_def Let_def path_final_unbound split: option.splits)

lemma save_without_model:
  "model self = None \<Longrightarrow>
   save env self files path_opt =
     ((self\<lparr>load_model := None\<rparr>,
       files @ [((case path_opt of None \<Rightarrow> path self | Some p \<Rightarrow> p) @ model_file_name,
                 Configuration (self\<lparr>load_model := Some False\<rparr>))]),
      Inr (case path_opt of None \<Rightarrow> path self | Some p \<Rightarrow> p))"
  by (cases self) (simp add: save_def base_save_def Let_def split: option.splits)

text \<open>
  C2: \<^verbatim>\<open>save\<close> on an object with a trained model writes the configuration with the model
  detached, and then stops at line 385: the name \<^verbatim>\<open>path_final\<close> is bound nowhere, so the
  call raises NameError, no model-internals file is written, the path is not returned and
  \<^verbatim>\<open>_load_model\<close> stays set. Evaluated here for the example object.
\<close>

theorem save_trained_model_raises:
  "save ex_env ex_trained [] None =
     ((ex_trained\<lparr>load_model := Some True\<rparr>,
       [(''models/nn/model.pkl'', Configuration (ex_trained\<lparr>model := None, load_model := Some True\<rparr>))]),
      Inl (NameError ''path_final''))"
proof -
  have "model ex_trained = Some ex_learner" by (simp add: ex_trained_def)
  from save_with_model [OF this, of ex_env "[]" None]
  show ?thesis by (simp add: model_file_name_def ex_trained_def ex_fitted_def ex_init_def)
qed

end
